theory Spec2Isabelle
  imports Complex_Main
begin

section \<open>Data model (mini\_crm/models.py)\<close>

text \<open>
  Every table of the service is a list of rows in storage order. The integer primary key
  of a row is its first field. Python's unbounded integers are \<open>int\<close>; a nullable
  column is an \<open>option\<close>.
\<close>

record operator =
  op_id :: int
  op_name :: string
  is_active :: bool
  load_limit :: int

record lead =
  lead_id :: int
  external_id :: string
  lead_name :: "string option"

record source =
  src_id :: int
  src_name :: string
  src_code :: "string option"

record operator_source_weight =
  w_id :: int
  w_operator_id :: int
  w_source_id :: int
  weight :: int

datatype contact_status = Active | Closed

record contact =
  c_id :: int
  c_lead_id :: int
  c_source_id :: int
  c_operator_id :: "int option"
  status :: contact_status
  created_at :: int
  payload :: "string option"

text \<open>The database session: the five tables.\<close>

record db =
  operators :: "operator list"
  leads :: "lead list"
  sources :: "source list"
  weights :: "operator_source_weight list"
  contacts :: "contact list"

text \<open>The request body of \<open>POST /contacts\<close> (class \<open>ContactCreate\<close>).\<close>

record contact_create =
  lead_external_id :: string
  ci_lead_name :: "string option"
  ci_source_id :: int
  ci_payload :: "string option"

text \<open>
  What a handler can raise: \<open>HTTPException(status_code, detail)\<close>, and the
  \<open>IntegrityError\<close> of a commit that violates a unique constraint
  (\<open>Lead.external_id\<close> is declared \<open>unique=True\<close>).
\<close>

datatype error = HTTPException int string | IntegrityError

section \<open>The persistence layer\<close>

text \<open>
  The key of a new row is assigned by the database on insert (an autoincremented integer
  primary key): one more than the largest key of the table, 1 in an empty table.
\<close>

definition fresh_id :: "int list \<Rightarrow> int" where
  "fresh_id ids = fold max ids 0 + 1"

text \<open>\<open>query(T).filter(T.id == i).first()\<close>\<close>

definition find_operator :: "db \<Rightarrow> int \<Rightarrow> operator option" where
  "find_operator d i = find (\<lambda>o'. op_id o' = i) (operators d)"

definition find_source :: "db \<Rightarrow> int \<Rightarrow> source option" where
  "find_source d i = find (\<lambda>s. src_id s = i) (sources d)"

definition find_contact :: "db \<Rightarrow> int \<Rightarrow> contact option" where
  "find_contact d i = find (\<lambda>c. c_id c = i) (contacts d)"

text \<open>\<open>query(Lead).filter(Lead.external_id == external_id).first()\<close>\<close>

definition lead_lookup :: "db \<Rightarrow> string \<Rightarrow> lead option" where
  "lead_lookup d eid = find (\<lambda>l. external_id l = eid) (leads d)"

text \<open>Python truthiness of an \<open>Optional[str]\<close>: neither \<open>None\<close> nor the empty string.\<close>

definition truthy :: "string option \<Rightarrow> bool" where
  "truthy n = (case n of None \<Rightarrow> False | Some s \<Rightarrow> s \<noteq> [])"

text \<open>
  The constraints that the schema puts on the table of leads: \<open>id\<close> is the primary key
  and \<open>external_id\<close> is declared \<open>unique=True\<close>.
\<close>

definition leads_unique :: "db \<Rightarrow> bool" where
  "leads_unique d \<longleftrightarrow> distinct (map lead_id (leads d)) \<and> distinct (map external_id (leads d))"

section \<open>Lead registry: \<open>get_or_create_lead\<close>\<close>

text \<open>
  The function reads once (the lookup) and then writes at most once (a name back-fill or
  an insert, each followed by a commit). \<open>get_or_create_lead_after found d\<close> is the part
  after the lookup: \<open>found\<close> is what the lookup returned and \<open>d\<close> is the database the
  commit meets. The back-fill is an \<open>UPDATE ... WHERE id = lead.id\<close>; the insert is
  rejected by the unique constraint on \<open>external_id\<close> when a row with that
  \<open>external_id\<close> is already stored, and the function has no handler for that.
\<close>

definition get_or_create_lead_after ::
  "lead option \<Rightarrow> db \<Rightarrow> string \<Rightarrow> string option \<Rightarrow> db \<times> (error + lead)" where
  "get_or_create_lead_after found d eid name =
     (case found of
        Some l \<Rightarrow>
          if truthy name \<and> \<not> truthy (lead_name l)
          then (d\<lparr>leads := map (\<lambda>x. if lead_id x = lead_id l then x\<lparr>lead_name := name\<rparr> else x)
                               (leads d)\<rparr>,
                Inr (l\<lparr>lead_name := name\<rparr>))
          else (d, Inr l)
      | None \<Rightarrow>
          if list_ex (\<lambda>x. external_id x = eid) (leads d)
          then (d, Inl IntegrityError)
          else (let l = \<lparr>lead_id = fresh_id (map lead_id (leads d)),
                         external_id = eid, lead_name = name\<rparr>
                in (d\<lparr>leads := leads d @ [l]\<rparr>, Inr l)))"

text \<open>One call in one session with nothing in between: lookup and commit see the same database.\<close>

definition get_or_create_lead :: "db \<Rightarrow> string \<Rightarrow> string option \<Rightarrow> db \<times> (error + lead)" where
  "get_or_create_lead d eid name = get_or_create_lead_after (lead_lookup d eid) d eid name"

text \<open>A run of calls, each on the database the one before left.\<close>

fun resolve_calls :: "db \<Rightarrow> (string \<times> string option) list \<Rightarrow> db" where
  "resolve_calls d [] = d"
| "resolve_calls d ((eid, name) # cs) = resolve_calls (fst (get_or_create_lead d eid name)) cs"

section \<open>Capacity tracker and selection engine: \<open>choose_operator_for_source\<close>\<close>

text \<open>The count query: contacts of the operator with status \<open>active\<close>.\<close>

definition active_count :: "db \<Rightarrow> int \<Rightarrow> int" where
  "active_count d oid =
     int (length (filter (\<lambda>c. c_operator_id c = Some oid \<and> status c = Active) (contacts d)))"

text \<open>
  The first query: weight rows joined with their operator (on
  \<open>operator_id = operators.id\<close>), kept when the row is for the source and the operator is
  active. Each row comes with the operator \<open>w.operator\<close> it references.
\<close>

definition weights_query :: "db \<Rightarrow> int \<Rightarrow> (operator_source_weight \<times> operator) list" where
  "weights_query d sid =
     List.map_filter
       (\<lambda>w. case find_operator d (w_operator_id w) of
               None \<Rightarrow> None
             | Some op \<Rightarrow> if w_source_id w = sid \<and> is_active op then Some (w, op) else None)
       (weights d)"

text \<open>The first loop: rows of positive weight whose operator is under its load limit.\<close>

fun collect_candidates :: "db \<Rightarrow> (operator_source_weight \<times> operator) list \<Rightarrow> (operator \<times> int) list" where
  "collect_candidates d [] = []"
| "collect_candidates d ((w, op) # ws) =
     (if weight w \<le> 0 then collect_candidates d ws
      else if active_count d (op_id op) < load_limit op
           then (op, weight w) # collect_candidates d ws
           else collect_candidates d ws)"

definition candidates :: "db \<Rightarrow> int \<Rightarrow> (operator \<times> int) list" where
  "candidates d sid = collect_candidates d (weights_query d sid)"

text \<open>
  The accumulator \<open>upto\<close> of the second loop is a Python float, an IEEE double, and
  \<open>upto + weight\<close> converts the integer weight to a double and adds in double arithmetic,
  each step rounding to the nearest double, ties to the even mantissa. The accumulator
  starts at \<open>0.0\<close> and only ever has integers added, so it holds an integer-valued double
  at every step: the model keeps it as that integer. \<open>bitlen n\<close> is the number of binary
  digits of \<open>n\<close>; \<open>round_nat n\<close> is the double nearest to \<open>n\<close>, which keeps the 53
  leading binary digits; \<open>float_add upto weight\<close> is the source's \<open>upto + weight\<close>. The
  end of the range of doubles, near \<open>2 ^ 1024\<close>, is not modelled: a weight is stored in an
  SQL integer column, of 64 bits at most, and no running sum of such weights comes near it.
\<close>

fun bitlen :: "nat \<Rightarrow> nat" where
  "bitlen n = (if n = 0 then 0 else Suc (bitlen (n div 2)))"

declare bitlen.simps [simp del]

definition round_nat :: "nat \<Rightarrow> nat" where
  "round_nat n =
     (if bitlen n \<le> 53 then n
      else (let s = bitlen n - 53; q = n div 2 ^ s; rest = n mod 2 ^ s; half = 2 ^ (s - 1)
            in (if rest > half \<or> (rest = half \<and> odd q) then q + 1 else q) * 2 ^ s))"

definition round_double :: "int \<Rightarrow> int" where
  "round_double i = (if 0 \<le> i then int (round_nat (nat i)) else - int (round_nat (nat (- i))))"

definition float_add :: "int \<Rightarrow> int \<Rightarrow> int" where
  "float_add x w = round_double (x + round_double w)"

text \<open>
  The second loop, from the accumulator \<open>upto'\<close> (the source's \<open>upto\<close>): the operator
  it returns, or \<open>None\<close> when it runs off the end of the list. The draw \<open>r\<close> is a double,
  here the real number it stands for.
\<close>

fun accumulate :: "int \<Rightarrow> real \<Rightarrow> (operator \<times> int) list \<Rightarrow> operator option" where
  "accumulate upto' r [] = None"
| "accumulate upto' r ((op, wt) # cs) =
     (if real_of_int (float_add upto' wt) \<ge> r then Some op
      else accumulate (float_add upto' wt) r cs)"

text \<open>
  \<open>uniform\<close> stands for \<open>random.uniform\<close>, the random source the function consults (the
  tests replace it by a constant function).
\<close>

definition choose_operator_for_source ::
  "db \<Rightarrow> int \<Rightarrow> (real \<Rightarrow> real \<Rightarrow> real) \<Rightarrow> operator option" where
  "choose_operator_for_source d sid uniform =
     (let cands = candidates d sid in
      if cands = [] then None
      else (let total_weight = sum_list (map snd cands);
                r = uniform 0 (real_of_int total_weight)
            in case accumulate 0 r cands of
                 Some op \<Rightarrow> Some op
               | None \<Rightarrow> Some (fst (last cands))))"

text \<open>
  The same loop and the same function with the accumulator in exact arithmetic: no
  rounding, the sum of the weights so far as it is. This is the arithmetic that the
  statement about the fallback (claim C4) is made under.
\<close>

fun accumulate_exact :: "real \<Rightarrow> real \<Rightarrow> (operator \<times> int) list \<Rightarrow> operator option" where
  "accumulate_exact upto' r [] = None"
| "accumulate_exact upto' r ((op, wt) # cs) =
     (if upto' + real_of_int wt \<ge> r then Some op
      else accumulate_exact (upto' + real_of_int wt) r cs)"

definition choose_operator_exact ::
  "db \<Rightarrow> int \<Rightarrow> (real \<Rightarrow> real \<Rightarrow> real) \<Rightarrow> operator option" where
  "choose_operator_exact d sid uniform =
     (let cands = candidates d sid in
      if cands = [] then None
      else (let total_weight = sum_list (map snd cands);
                r = uniform 0 (real_of_int total_weight)
            in case accumulate_exact 0 r cands of
                 Some op \<Rightarrow> Some op
               | None \<Rightarrow> Some (fst (last cands))))"

section \<open>Contact ledger: \<open>create_contact\<close> and \<open>update_contact_status\<close>\<close>

text \<open>\<open>now\<close> is the clock reading that the column default \<open>datetime.utcnow\<close> stores.\<close>

definition create_contact ::
  "db \<Rightarrow> int \<Rightarrow> (real \<Rightarrow> real \<Rightarrow> real) \<Rightarrow> contact_create \<Rightarrow> db \<times> (error + contact)" where
  "create_contact d now uniform contact_in =
     (case find_source d (ci_source_id contact_in) of
        None \<Rightarrow> (d, Inl (HTTPException 404 ''Source not found''))
      | Some src \<Rightarrow>
          (case get_or_create_lead d (lead_external_id contact_in) (ci_lead_name contact_in) of
             (d1, Inl e) \<Rightarrow> (d1, Inl e)
           | (d1, Inr l) \<Rightarrow>
               (let operator = choose_operator_for_source d1 (src_id src) uniform;
                    db_contact = \<lparr>c_id = fresh_id (map c_id (contacts d1)),
                                  c_lead_id = lead_id l,
                                  c_source_id = src_id src,
                                  c_operator_id = map_option op_id operator,
                                  status = Active,
                                  created_at = now,
                                  payload = ci_payload contact_in\<rparr>
                in (d1\<lparr>contacts := contacts d1 @ [db_contact]\<rparr>, Inr db_contact))))"

text \<open>The update is an \<open>UPDATE contacts SET status = ... WHERE id = contact_id\<close>.\<close>

definition update_contact_status :: "db \<Rightarrow> int \<Rightarrow> contact_status \<Rightarrow> db \<times> (error + contact)" where
  "update_contact_status d contact_id st =
     (case find_contact d contact_id of
        None \<Rightarrow> (d, Inl (HTTPException 404 ''Contact not found''))
      | Some c \<Rightarrow>
          (d\<lparr>contacts := map (\<lambda>x. if c_id x = contact_id then x\<lparr>status := st\<rparr> else x)
                             (contacts d)\<rparr>,
           Inr (c\<lparr>status := st\<rparr>)))"

section \<open>Fixtures\<close>

text \<open>The databases of the two tests of tests/test\_distribytion.py, and variations of them.\<close>

text \<open>\<open>test_choose_operator_respects_weights\<close>: two operators, weights 1 and 3 for one source.\<close>

definition op1 :: operator where
  "op1 = \<lparr>op_id = 1, op_name = ''Op1'', is_active = True, load_limit = 10\<rparr>"

definition op2 :: operator where
  "op2 = \<lparr>op_id = 2, op_name = ''Op2'', is_active = True, load_limit = 10\<rparr>"

definition weights_test_db :: db where
  "weights_test_db =
     \<lparr>operators = [op1, op2],
      leads = [],
      sources = [\<lparr>src_id = 1, src_name = ''Bot A'', src_code = Some ''bot_a''\<rparr>],
      weights = [\<lparr>w_id = 1, w_operator_id = 1, w_source_id = 1, weight = 1\<rparr>,
                 \<lparr>w_id = 2, w_operator_id = 2, w_source_id = 1, weight = 3\<rparr>],
      contacts = []\<rparr>"

text \<open>\<open>test_choose_operator_respects_load_limit\<close>: one operator of load limit 1 that
  already holds one active contact.\<close>

definition limited_op :: operator where
  "limited_op = \<lparr>op_id = 1, op_name = ''Limited Op'', is_active = True, load_limit = 1\<rparr>"

definition load_limit_test_db :: db where
  "load_limit_test_db =
     \<lparr>operators = [limited_op],
      leads = [\<lparr>lead_id = 1, external_id = ''user_1'', lead_name = Some ''User 1''\<rparr>],
      sources = [\<lparr>src_id = 1, src_name = ''Bot B'', src_code = Some ''bot_b''\<rparr>],
      weights = [\<lparr>w_id = 1, w_operator_id = 1, w_source_id = 1, weight = 10\<rparr>],
      contacts = [\<lparr>c_id = 1, c_lead_id = 1, c_source_id = 1, c_operator_id = Some 1,
                   status = Active, created_at = 0, payload = Some ''first contact''\<rparr>]\<rparr>"

text \<open>The first fixture with the weight of the first operator set to 0.\<close>

definition zero_weight_db :: db where
  "zero_weight_db =
     weights_test_db\<lparr>weights := [\<lparr>w_id = 1, w_operator_id = 1, w_source_id = 1, weight = 0\<rparr>,
                                  \<lparr>w_id = 2, w_operator_id = 2, w_source_id = 1, weight = 3\<rparr>]\<rparr>"

text \<open>The first fixture with weights beyond \<open>2 ^ 53\<close>: \<open>2 ^ 53 + 3\<close> and 2.\<close>

definition big_weights_db :: db where
  "big_weights_db =
     weights_test_db\<lparr>weights :=
        [\<lparr>w_id = 1, w_operator_id = 1, w_source_id = 1, weight = 9007199254740995\<rparr>,
         \<lparr>w_id = 2, w_operator_id = 2, w_source_id = 1, weight = 2\<rparr>]\<rparr>"

text \<open>A request body for source 1.\<close>

definition alice_contact :: contact_create where
  "alice_contact = \<lparr>lead_external_id = ''u1'', ci_lead_name = Some ''Alice'', ci_source_id = 1,
                    ci_payload = Some ''hello''\<rparr>"

text \<open>A request body for a source id that no fixture has.\<close>

definition bob_contact :: contact_create where
  "bob_contact = \<lparr>lead_external_id = ''user_1'', ci_lead_name = Some ''Bob'', ci_source_id = 9,
                  ci_payload = None\<rparr>"

text \<open>The lead and the database that \<open>get_or_create_lead\<close> makes of \<open>u1\<close>, \<open>Alice\<close>
  in the first fixture.\<close>

definition alice_lead :: lead where
  "alice_lead = \<lparr>lead_id = 1, external_id = ''u1'', lead_name = Some ''Alice''\<rparr>"

definition alice_db :: db where
  "alice_db = weights_test_db\<lparr>leads := [alice_lead]\<rparr>"

text \<open>The first fixture after another session has committed a lead for \<open>u1\<close>.\<close>

definition race_db :: db where
  "race_db = weights_test_db\<lparr>leads := [\<lparr>lead_id = 1, external_id = ''u1'', lead_name = Some ''Bob''\<rparr>]\<rparr>"

section \<open>The accumulation loop\<close>

text \<open>The loop returns as soon as the running sum reaches the draw, so it returns whenever
  the draw is at most the sum of all weights.\<close>

lemma accumulate_exact_reaches:
  "cs \<noteq> [] \<Longrightarrow> r \<le> u + real_of_int (sum_list (map snd cs)) \<Longrightarrow> \<exists>op. accumulate_exact u r cs = Some op"
proof (induction cs arbitrary: u)
  case Nil
  then show ?case by simp
next
  case (Cons c cs)
  obtain op wt where c: "c = (op, wt)" by (cases c)
  show ?case
  proof (cases "u + real_of_int wt \<ge> r")
    case True
    then show ?thesis by (simp add: c)
  next
    case False
    with Cons.prems c have ne: "cs \<noteq> []" by auto
    from Cons.prems c have "r \<le> (u + real_of_int wt) + real_of_int (sum_list (map snd cs))"
      by simp
    from Cons.IH [OF ne this] False show ?thesis by (simp add: c)
  qed
qed

text \<open>What it returns is the candidate at the least index whose running sum reaches the draw.\<close>

lemma accumulate_exact_first:
  "accumulate_exact u r cs = Some op \<Longrightarrow>
   \<exists>i<length cs. op = fst (cs ! i)
      \<and> r \<le> u + real_of_int (sum_list (map snd (take (Suc i) cs)))
      \<and> (\<forall>j<i. u + real_of_int (sum_list (map snd (take (Suc j) cs))) < r)"
proof (induction cs arbitrary: u)
  case Nil
  then show ?case by simp
next
  case (Cons c cs)
  obtain op' wt where c: "c = (op', wt)" by (cases c)
  show ?case
  proof (cases "u + real_of_int wt \<ge> r")
    case True
    with Cons.prems c have "op = op'" by simp
    with True c show ?thesis by (intro exI [of _ 0]) simp
  next
    case False
    with Cons.prems c have "accumulate_exact (u + real_of_int wt) r cs = Some op" by simp
    from Cons.IH [OF this] obtain i where i: "i < length cs" "op = fst (cs ! i)"
      "r \<le> u + real_of_int wt + real_of_int (sum_list (map snd (take (Suc i) cs)))"
      "\<forall>j<i. u + real_of_int wt + real_of_int (sum_list (map snd (take (Suc j) cs))) < r"
      by blast
    have "\<forall>j<Suc i. u + real_of_int (sum_list (map snd (take (Suc j) (c # cs)))) < r"
    proof (intro allI impI)
      fix j assume j: "j < Suc i"
      show "u + real_of_int (sum_list (map snd (take (Suc j) (c # cs)))) < r"
      proof (cases j)
        case 0
        with False c show ?thesis by simp
      next
        case (Suc k)
        with j i(4) have "u + real_of_int wt + real_of_int (sum_list (map snd (take (Suc k) cs))) < r"
          by simp
        with Suc c show ?thesis by (simp add: add.assoc)
      qed
    qed
    with i c show ?thesis by (intro exI [of _ "Suc i"]) (simp add: add.assoc)
  qed
qed

text \<open>With positive weights only, a draw beyond the sum of all weights passes every candidate.\<close>

lemma accumulate_exact_none:
  "\<forall>c\<in>set cs. 0 < snd c \<Longrightarrow> u + real_of_int (sum_list (map snd cs)) < r \<Longrightarrow> accumulate_exact u r cs = None"
proof (induction cs arbitrary: u)
  case Nil
  then show ?case by simp
next
  case (Cons c cs)
  obtain op wt where c: "c = (op, wt)" by (cases c)
  from Cons.prems have pos: "\<forall>c\<in>set cs. 0 < snd c" by simp
  have "0 \<le> sum_list (map snd cs)" using pos by (intro sum_list_nonneg) auto
  then have "0 \<le> real_of_int (sum_list (map snd cs))" by simp
  with Cons.prems(2) c have "\<not> r \<le> u + real_of_int wt" by simp
  moreover from Cons.prems(2) c have "(u + real_of_int wt) + real_of_int (sum_list (map snd cs)) < r" by simp
  from Cons.IH [OF pos this] have "accumulate_exact (u + real_of_int wt) r cs = None" .
  ultimately show ?case by (simp add: c)
qed

lemma accumulate_in_set: "accumulate u r cs = Some op \<Longrightarrow> op \<in> fst ` set cs"
  by (induction u r cs rule: accumulate.induct) (auto split: if_splits)

text \<open>Up to \<open>2 ^ 53\<close> every natural number is a double, and the float addition is exact.\<close>

lemma bitlen_le: "n < 2 ^ k \<Longrightarrow> bitlen n \<le> k"
proof (induction k arbitrary: n)
  case 0
  then show ?case by (simp add: bitlen.simps)
next
  case (Suc k)
  show ?case
  proof (cases "n = 0")
    case True
    then show ?thesis by (simp add: bitlen.simps)
  next
    case False
    from Suc.prems have "n div 2 < 2 ^ k" by simp
    from Suc.IH [OF this] False show ?thesis by (subst bitlen.simps) simp
  qed
qed

lemma round_nat_small: "n \<le> 2 ^ 53 \<Longrightarrow> round_nat n = n"
proof (cases "n = 2 ^ 53")
  case True
  have "round_nat (2 ^ 53) = 2 ^ 53" by (simp add: round_nat_def bitlen.simps Let_def)
  with True show ?thesis by simp
next
  case False
  assume "n \<le> 2 ^ 53"
  with False have "n < 2 ^ 53" by simp
  then have "bitlen n \<le> 53" by (rule bitlen_le)
  then show ?thesis by (simp add: round_nat_def)
qed

lemma round_double_small: "0 \<le> i \<Longrightarrow> i \<le> 2 ^ 53 \<Longrightarrow> round_double i = i"
proof -
  assume a: "0 \<le> i" "i \<le> 2 ^ 53"
  then have "nat i \<le> 2 ^ 53" by (simp add: nat_le_iff)
  then have "round_nat (nat i) = nat i" by (rule round_nat_small)
  with a show ?thesis by (simp add: round_double_def)
qed

lemma float_add_small:
  "0 \<le> x \<Longrightarrow> 0 \<le> w \<Longrightarrow> x + w \<le> 2 ^ 53 \<Longrightarrow> float_add x w = x + w"
  by (simp add: float_add_def round_double_small)

text \<open>So the loop of the source and the loop in exact arithmetic agree on positive weights
  whose sum is at most \<open>2 ^ 53\<close>.\<close>

lemma accumulate_exact_agree:
  assumes "\<forall>c\<in>set cs. 0 < snd c" and "0 \<le> u" and "u + sum_list (map snd cs) \<le> 2 ^ 53"
  shows "accumulate u r cs = accumulate_exact (real_of_int u) r cs"
  using assms
proof (induction cs arbitrary: u)
  case Nil
  then show ?case by simp
next
  case (Cons c cs)
  obtain op wt where c: "c = (op, wt)" by (cases c)
  from Cons.prems(1) c have wt: "0 < wt" and pos: "\<forall>c\<in>set cs. 0 < snd c" by simp_all
  have "0 \<le> sum_list (map snd cs)" using pos by (intro sum_list_nonneg) auto
  with Cons.prems(3) c have le: "u + wt \<le> 2 ^ 53" by simp
  with Cons.prems(2) wt have fa: "float_add u wt = u + wt" by (simp add: float_add_small)
  from Cons.prems(2) wt have "0 \<le> u + wt" by simp
  moreover from Cons.prems(3) c have "(u + wt) + sum_list (map snd cs) \<le> 2 ^ 53" by simp
  ultimately have "accumulate (u + wt) r cs = accumulate_exact (real_of_int (u + wt)) r cs"
    using pos by (intro Cons.IH)
  then show ?case by (simp add: c fa)
qed

section \<open>The candidate list\<close>

lemma find_operator_Some:
  "find_operator d i = Some op \<Longrightarrow> op \<in> set (operators d) \<and> op_id op = i"
  unfolding find_operator_def by (auto simp: find_Some_iff)

lemma set_map_filter_iff:
  "y \<in> set (List.map_filter f xs) \<longleftrightarrow> (\<exists>x\<in>set xs. f x = Some y)"
  by (induction xs) (auto simp: map_filter_simps split: option.splits)

lemma in_weights_query:
  "(w, op) \<in> set (weights_query d sid) \<longleftrightarrow>
     w \<in> set (weights d) \<and> find_operator d (w_operator_id w) = Some op
     \<and> w_source_id w = sid \<and> is_active op"
  by (auto simp: weights_query_def set_map_filter_iff split: option.splits if_splits)

lemma in_collect_candidates:
  "(op, wt) \<in> set (collect_candidates d ws) \<longleftrightarrow>
     (\<exists>w. (w, op) \<in> set ws \<and> weight w = wt \<and> 0 < wt
          \<and> active_count d (op_id op) < load_limit op)"
  by (induction d ws rule: collect_candidates.induct) auto

lemma in_candidates:
  "(op, wt) \<in> set (candidates d sid) \<longleftrightarrow>
     (\<exists>w\<in>set (weights d). weight w = wt \<and> 0 < wt \<and> w_source_id w = sid
        \<and> find_operator d (w_operator_id w) = Some op \<and> is_active op
        \<and> active_count d (op_id op) < load_limit op)"
  unfolding candidates_def in_collect_candidates in_weights_query by blast

lemma candidates_positive: "\<forall>c\<in>set (candidates d sid). 0 < snd c"
proof
  fix c assume c: "c \<in> set (candidates d sid)"
  obtain op wt where "c = (op, wt)" by (cases c)
  with c show "0 < snd c" by (auto simp: in_candidates)
qed

lemma candidates_Nil_iff:
  "candidates d sid = [] \<longleftrightarrow>
     \<not> (\<exists>w\<in>set (weights d). \<exists>op. w_source_id w = sid \<and> 0 < weight w
          \<and> find_operator d (w_operator_id w) = Some op \<and> is_active op
          \<and> active_count d (op_id op) < load_limit op)"
proof -
  have "candidates d sid = [] \<longleftrightarrow> \<not> (\<exists>op wt. (op, wt) \<in> set (candidates d sid))"
  proof (cases "candidates d sid")
    case Nil
    then show ?thesis by simp
  next
    case (Cons c cs)
    obtain op wt where "c = (op, wt)" by (cases c)
    with Cons have "(op, wt) \<in> set (candidates d sid)" by simp
    then have "\<exists>op wt. (op, wt) \<in> set (candidates d sid)" by blast
    moreover from Cons have "candidates d sid \<noteq> []" by simp
    ultimately show ?thesis by simp
  qed
  also have "\<dots> \<longleftrightarrow> \<not> (\<exists>w\<in>set (weights d). \<exists>op. w_source_id w = sid \<and> 0 < weight w
          \<and> find_operator d (w_operator_id w) = Some op \<and> is_active op
          \<and> active_count d (op_id op) < load_limit op)"
    unfolding in_candidates by blast
  finally show ?thesis .
qed

lemma candidates_cong:
  assumes "operators d' = operators d" "weights d' = weights d" "contacts d' = contacts d"
  shows "candidates d' sid = candidates d sid"
proof -
  have fo: "find_operator d' = find_operator d" using assms by (simp add: find_operator_def fun_eq_iff)
  have ac: "active_count d' = active_count d" using assms by (simp add: active_count_def fun_eq_iff)
  have wq: "weights_query d' sid = weights_query d sid" using assms fo by (simp add: weights_query_def)
  have "collect_candidates d' ws = collect_candidates d ws" for ws
    by (induction ws) (auto simp: ac)
  with wq show ?thesis by (simp add: candidates_def)
qed

section \<open>The selection\<close>

lemma choose_unfold:
  "candidates d sid \<noteq> [] \<Longrightarrow>
   choose_operator_for_source d sid uniform =
     (case accumulate 0 (uniform 0 (real_of_int (sum_list (map snd (candidates d sid))))) (candidates d sid) of
        Some op \<Rightarrow> Some op
      | None \<Rightarrow> Some (fst (last (candidates d sid))))"
  by (simp add: choose_operator_for_source_def Let_def)

lemma choose_exact_unfold:
  "candidates d sid \<noteq> [] \<Longrightarrow>
   choose_operator_exact d sid uniform =
     (case accumulate_exact 0 (uniform 0 (real_of_int (sum_list (map snd (candidates d sid)))))
             (candidates d sid) of
        Some op \<Rightarrow> Some op
      | None \<Rightarrow> Some (fst (last (candidates d sid))))"
  by (simp add: choose_operator_exact_def Let_def)

lemma choose_None_iff: "choose_operator_for_source d sid uniform = None \<longleftrightarrow> candidates d sid = []"
  by (auto simp: choose_operator_for_source_def Let_def split: option.splits)

lemma choose_Some_candidate:
  assumes "choose_operator_for_source d sid uniform = Some op"
  shows "\<exists>wt. (op, wt) \<in> set (candidates d sid)"
proof -
  from assms have ne: "candidates d sid \<noteq> []"
    by (auto simp: choose_operator_for_source_def Let_def)
  let ?r = "uniform 0 (real_of_int (sum_list (map snd (candidates d sid))))"
  show ?thesis
  proof (cases "accumulate 0 ?r (candidates d sid)")
    case None
    with assms ne have "op = fst (last (candidates d sid))" by (simp add: choose_unfold)
    moreover from ne have "last (candidates d sid) \<in> set (candidates d sid)" by simp
    ultimately show ?thesis by (metis prod.collapse)
  next
    case (Some op')
    with assms ne have "op' = op" by (simp add: choose_unfold)
    with Some have "op \<in> fst ` set (candidates d sid)" by (auto dest: accumulate_in_set)
    then show ?thesis by auto
  qed
qed

lemma choose_Some_eligible:
  assumes "choose_operator_for_source d sid uniform = Some op"
  shows "find_operator d (op_id op) = Some op \<and> is_active op
     \<and> (\<exists>w\<in>set (weights d). w_operator_id w = op_id op \<and> w_source_id w = sid \<and> 0 < weight w)
     \<and> active_count d (op_id op) < load_limit op"
proof -
  from choose_Some_candidate [OF assms] obtain wt where "(op, wt) \<in> set (candidates d sid)" ..
  then obtain w where w: "w \<in> set (weights d)" "weight w = wt" "0 < wt" "w_source_id w = sid"
    "find_operator d (w_operator_id w) = Some op" "is_active op"
    "active_count d (op_id op) < load_limit op"
    unfolding in_candidates by blast
  from w(5) have "op_id op = w_operator_id w" by (simp add: find_operator_Some)
  with w show ?thesis by auto
qed

lemma choose_cong:
  assumes "operators d' = operators d" "weights d' = weights d" "contacts d' = contacts d"
  shows "choose_operator_for_source d' sid u = choose_operator_for_source d sid u"
  by (simp add: choose_operator_for_source_def candidates_cong [OF assms])

section \<open>The lead registry\<close>

lemma find_map_update:
  assumes "\<And>x. P (f x) = P x"
  shows "find P (map f xs) = map_option f (find P xs)"
  using assms by (induction xs) auto

lemma find_append_cases:
  "find P (xs @ ys) = (case find P xs of None \<Rightarrow> find P ys | Some x \<Rightarrow> Some x)"
  by (induction xs) auto

lemma lead_lookup_Some: "lead_lookup d eid = Some l \<Longrightarrow> l \<in> set (leads d) \<and> external_id l = eid"
  unfolding lead_lookup_def by (auto simp: find_Some_iff)

lemma lead_lookup_None: "lead_lookup d eid = None \<longleftrightarrow> eid \<notin> set (map external_id (leads d))"
  by (auto simp: lead_lookup_def find_None_iff)

lemma fold_max_ge: "(a :: int) \<le> fold max xs a \<and> (\<forall>x\<in>set xs. x \<le> fold max xs a)"
proof (induction xs arbitrary: a)
  case Nil
  then show ?case by simp
next
  case (Cons y ys)
  from Cons.IH [of "max y a"] show ?case by auto
qed

lemma fresh_id_notin: "fresh_id ids \<notin> set ids"
proof
  assume "fresh_id ids \<in> set ids"
  with fold_max_ge [of 0 ids] have "fresh_id ids \<le> fold max ids 0" by blast
  then show False by (simp add: fresh_id_def)
qed

lemma fresh_id_Nil: "fresh_id [] = 1"
  by (simp add: fresh_id_def)

text \<open>\<open>get_or_create_lead\<close> writes the table of leads only.\<close>

lemma get_or_create_lead_after_frame:
  "get_or_create_lead_after found d eid name = (d', res) \<Longrightarrow>
   operators d' = operators d \<and> sources d' = sources d \<and> weights d' = weights d
   \<and> contacts d' = contacts d"
  by (auto simp: get_or_create_lead_after_def Let_def split: option.splits if_splits)

lemma get_or_create_lead_frame:
  "get_or_create_lead d eid name = (d', res) \<Longrightarrow>
   operators d' = operators d \<and> sources d' = sources d \<and> weights d' = weights d
   \<and> contacts d' = contacts d"
  unfolding get_or_create_lead_def by (rule get_or_create_lead_after_frame)

lemma get_or_create_lead_ok: "\<exists>d1 l. get_or_create_lead d eid name = (d1, Inr l)"
proof (cases "lead_lookup d eid")
  case None
  then have "\<not> list_ex (\<lambda>x. external_id x = eid) (leads d)"
    by (auto simp: lead_lookup_def find_None_iff list_ex_iff)
  with None show ?thesis
    by (simp add: get_or_create_lead_def get_or_create_lead_after_def Let_def)
next
  case (Some l)
  then show ?thesis
    by (simp add: get_or_create_lead_def get_or_create_lead_after_def)
qed

lemma get_or_create_lead_lookup:
  assumes "get_or_create_lead d eid name = (d1, Inr l)"
  shows "lead_lookup d1 eid = Some l"
proof (cases "lead_lookup d eid")
  case None
  then have no: "\<not> list_ex (\<lambda>x. external_id x = eid) (leads d)"
    by (auto simp: lead_lookup_def find_None_iff list_ex_iff)
  with None assms have d1: "d1 = d\<lparr>leads := leads d @ [l]\<rparr>" and l: "external_id l = eid"
    by (auto simp: get_or_create_lead_def get_or_create_lead_after_def Let_def)
  from None l show ?thesis
    by (simp add: d1 lead_lookup_def find_append_cases)
next
  case (Some l0)
  show ?thesis
  proof (cases "truthy name \<and> \<not> truthy (lead_name l0)")
    case True
    with Some assms have d1: "d1 = d\<lparr>leads := map (\<lambda>x. if lead_id x = lead_id l0
        then x\<lparr>lead_name := name\<rparr> else x) (leads d)\<rparr>" and l: "l = l0\<lparr>lead_name := name\<rparr>"
      by (auto simp: get_or_create_lead_def get_or_create_lead_after_def)
    have "find (\<lambda>x. external_id x = eid)
        (map (\<lambda>x. if lead_id x = lead_id l0 then x\<lparr>lead_name := name\<rparr> else x) (leads d))
      = map_option (\<lambda>x. if lead_id x = lead_id l0 then x\<lparr>lead_name := name\<rparr> else x)
          (find (\<lambda>x. external_id x = eid) (leads d))"
      by (rule find_map_update) simp
    with Some show ?thesis by (simp add: d1 l lead_lookup_def)
  next
    case False
    with Some assms have "d1 = d" "l = l0"
      by (auto simp: get_or_create_lead_def get_or_create_lead_after_def)
    with Some show ?thesis by simp
  qed
qed

lemma get_or_create_lead_cases:
  assumes "get_or_create_lead d eid name = (d', r)"
  shows "(lead_lookup d eid = None \<and> d' = d\<lparr>leads := leads d @
             [\<lparr>lead_id = fresh_id (map lead_id (leads d)), external_id = eid, lead_name = name\<rparr>]\<rparr>
          \<and> r = Inr \<lparr>lead_id = fresh_id (map lead_id (leads d)), external_id = eid, lead_name = name\<rparr>)
       \<or> (\<exists>l0. lead_lookup d eid = Some l0 \<and> truthy name \<and> \<not> truthy (lead_name l0)
             \<and> d' = d\<lparr>leads := map (\<lambda>x. if lead_id x = lead_id l0 then x\<lparr>lead_name := name\<rparr> else x)
                               (leads d)\<rparr>
             \<and> r = Inr (l0\<lparr>lead_name := name\<rparr>))
       \<or> (\<exists>l0. lead_lookup d eid = Some l0 \<and> \<not> (truthy name \<and> \<not> truthy (lead_name l0))
             \<and> d' = d \<and> r = Inr l0)"
proof (cases "lead_lookup d eid")
  case None
  then have "\<not> list_ex (\<lambda>x. external_id x = eid) (leads d)"
    by (auto simp: lead_lookup_def find_None_iff list_ex_iff)
  with None assms show ?thesis
    by (auto simp: get_or_create_lead_def get_or_create_lead_after_def Let_def)
next
  case (Some l0)
  with assms show ?thesis
    by (auto simp: get_or_create_lead_def get_or_create_lead_after_def split: if_splits)
qed

lemma map_backfill_ids:
  "map lead_id (map (\<lambda>x. if lead_id x = i then x\<lparr>lead_name := name\<rparr> else x) xs) = map lead_id xs"
  by (induction xs) auto

lemma map_backfill_eids:
  "map external_id (map (\<lambda>x. if lead_id x = i then x\<lparr>lead_name := name\<rparr> else x) xs)
     = map external_id xs"
  by (induction xs) auto

lemma filter_backfill_length:
  "length (filter (\<lambda>x. external_id x = eid)
       (map (\<lambda>x. if lead_id x = i then x\<lparr>lead_name := name\<rparr> else x) xs))
     = length (filter (\<lambda>x. external_id x = eid) xs)"
  by (induction xs) auto

lemma get_or_create_lead_existing:
  assumes "lead_lookup d eid = Some l0"
  shows "get_or_create_lead d eid name =
     (if truthy name \<and> \<not> truthy (lead_name l0)
      then (d\<lparr>leads := map (\<lambda>x. if lead_id x = lead_id l0 then x\<lparr>lead_name := name\<rparr> else x)
                           (leads d)\<rparr>,
            Inr (l0\<lparr>lead_name := name\<rparr>))
      else (d, Inr l0))"
  using assms by (simp add: get_or_create_lead_def get_or_create_lead_after_def)

lemma get_or_create_lead_existing_result:
  assumes "lead_lookup d eid = Some l0"
  shows "snd (get_or_create_lead d eid name) =
           Inr (l0\<lparr>lead_name := if truthy name \<and> \<not> truthy (lead_name l0) then name
                                 else lead_name l0\<rparr>)
     \<and> map lead_id (leads (fst (get_or_create_lead d eid name))) = map lead_id (leads d)"
  unfolding get_or_create_lead_existing [OF assms]
  by (simp add: map_backfill_ids del: map_map)

lemma get_or_create_lead_unique:
  assumes "leads_unique d" and "get_or_create_lead d eid name = (d', r)"
  shows "leads_unique d'"
proof -
  from assms(1) have di: "distinct (map lead_id (leads d))"
    and de: "distinct (map external_id (leads d))"
    by (simp_all add: leads_unique_def)
  from get_or_create_lead_cases [OF assms(2)] show ?thesis
  proof (elim disjE exE conjE)
    assume none: "lead_lookup d eid = None"
      and d': "d' = d\<lparr>leads := leads d @
             [\<lparr>lead_id = fresh_id (map lead_id (leads d)), external_id = eid, lead_name = name\<rparr>]\<rparr>"
    from none have "eid \<notin> set (map external_id (leads d))" using lead_lookup_None by blast
    moreover have "fresh_id (map lead_id (leads d)) \<notin> set (map lead_id (leads d))"
      by (rule fresh_id_notin)
    ultimately show ?thesis using di de unfolding leads_unique_def d' by simp
  next
    fix l0
    assume d': "d' = d\<lparr>leads := map (\<lambda>x. if lead_id x = lead_id l0 then x\<lparr>lead_name := name\<rparr> else x)
                               (leads d)\<rparr>"
    have "leads d' = map (\<lambda>x. if lead_id x = lead_id l0 then x\<lparr>lead_name := name\<rparr> else x) (leads d)"
      by (simp add: d')
    then show ?thesis unfolding leads_unique_def
      by (simp only: map_backfill_ids map_backfill_eids di de)
  next
    assume "d' = d"
    with assms(1) show ?thesis by simp
  qed
qed

lemma get_or_create_lead_step:
  assumes u: "distinct (map lead_id (leads d))"
    and l: "lead_lookup d eid = Some l"
    and g: "get_or_create_lead d eid' name = (d', r)"
  shows "lead_lookup d' eid =
           Some (l\<lparr>lead_name := if eid' = eid \<and> truthy name \<and> \<not> truthy (lead_name l)
                                 then name else lead_name l\<rparr>)
         \<and> length (filter (\<lambda>x. external_id x = eid) (leads d'))
             = length (filter (\<lambda>x. external_id x = eid) (leads d))"
proof -
  from l have lin: "l \<in> set (leads d)" and le: "external_id l = eid"
    by (simp_all add: lead_lookup_Some)
  show ?thesis
    using get_or_create_lead_cases [OF g]
  proof (elim disjE exE conjE, goal_cases new fill same)
    case new
    with l have ne: "eid' \<noteq> eid" by auto
    from l have "find (\<lambda>x. external_id x = eid) (leads d) = Some l" by (simp add: lead_lookup_def)
    with ne show ?case by (simp add: new(2) lead_lookup_def find_append_cases)
  next
    case (fill l0)
    let ?f = "\<lambda>x. if lead_id x = lead_id l0 then x\<lparr>lead_name := name\<rparr> else x"
    have "find (\<lambda>x. external_id x = eid) (map ?f (leads d))
        = map_option ?f (find (\<lambda>x. external_id x = eid) (leads d))"
      by (rule find_map_update) simp
    with l fill have look: "lead_lookup d' eid = Some (?f l)" by (simp add: lead_lookup_def)
    have "?f l = l\<lparr>lead_name := if eid' = eid \<and> truthy name \<and> \<not> truthy (lead_name l)
                                 then name else lead_name l\<rparr>"
    proof (cases "eid' = eid")
      case True
      with l fill have "l0 = l" by simp
      with True fill show ?thesis by simp
    next
      case False
      from fill have "l0 \<in> set (leads d)" "external_id l0 = eid'" by (simp_all add: lead_lookup_Some)
      with False le have "l0 \<noteq> l" by auto
      with u lin \<open>l0 \<in> set (leads d)\<close> have "lead_id l \<noteq> lead_id l0"
        by (auto simp: distinct_map inj_on_def)
      with False show ?thesis by simp
    qed
    moreover have "leads d' = map ?f (leads d)" by (simp add: fill(4))
    then have "length (filter (\<lambda>x. external_id x = eid) (leads d'))
        = length (filter (\<lambda>x. external_id x = eid) (leads d))"
      by (simp only: filter_backfill_length)
    moreover note look
    ultimately show ?case by simp
  next
    case (same l0)
    have "l\<lparr>lead_name := if eid' = eid \<and> truthy name \<and> \<not> truthy (lead_name l)
                                 then name else lead_name l\<rparr> = l"
    proof (cases "eid' = eid")
      case True
      with l same have "l0 = l" by simp
      with same show ?thesis by auto
    next
      case False
      then show ?thesis by simp
    qed
    with same l show ?case by simp
  qed
qed

lemma resolve_calls_keeps:
  assumes "leads_unique d" and "lead_lookup d eid = Some l"
  shows "leads_unique (resolve_calls d cs)
     \<and> (\<exists>l'. lead_lookup (resolve_calls d cs) eid = Some l' \<and> lead_id l' = lead_id l
            \<and> (truthy (lead_name l) \<longrightarrow> l' = l))
     \<and> length (filter (\<lambda>x. external_id x = eid) (leads (resolve_calls d cs)))
         = length (filter (\<lambda>x. external_id x = eid) (leads d))"
  using assms
proof (induction cs arbitrary: d l)
  case Nil
  then show ?case by simp
next
  case (Cons c cs)
  obtain eid' name where c: "c = (eid', name)" by (cases c)
  obtain d' r where g: "get_or_create_lead d eid' name = (d', r)" by (cases "get_or_create_lead d eid' name")
  let ?l' = "l\<lparr>lead_name := if eid' = eid \<and> truthy name \<and> \<not> truthy (lead_name l)
                                 then name else lead_name l\<rparr>"
  from Cons.prems(1) have "distinct (map lead_id (leads d))" by (simp add: leads_unique_def)
  from get_or_create_lead_step [OF this Cons.prems(2) g]
  have st: "lead_lookup d' eid = Some ?l'"
      "length (filter (\<lambda>x. external_id x = eid) (leads d'))
             = length (filter (\<lambda>x. external_id x = eid) (leads d))"
    by simp_all
  from get_or_create_lead_unique [OF Cons.prems(1) g] have u': "leads_unique d'" .
  from Cons.IH [OF u' st(1)] obtain l'' where
    ih: "leads_unique (resolve_calls d' cs)"
      "lead_lookup (resolve_calls d' cs) eid = Some l''" "lead_id l'' = lead_id ?l'"
      "truthy (lead_name ?l') \<longrightarrow> l'' = ?l'"
      "length (filter (\<lambda>x. external_id x = eid) (leads (resolve_calls d' cs)))
         = length (filter (\<lambda>x. external_id x = eid) (leads d'))"
    by blast
  have "truthy (lead_name l) \<longrightarrow> l'' = l"
  proof
    assume t: "truthy (lead_name l)"
    then have "?l' = l" by simp
    with ih(4) t show "l'' = l" by simp
  qed
  with ih st(2) show ?case by (simp add: c g)
qed

lemma unique_count_one:
  assumes "distinct (map f xs)" and "x \<in> set xs"
  shows "length (filter (\<lambda>y. f y = f x) xs) = 1"
  using assms
proof (induction xs)
  case Nil
  then show ?case by simp
next
  case (Cons a xs)
  show ?case
  proof (cases "f a = f x")
    case True
    from Cons.prems(1) have "f a \<notin> f ` set xs" by simp
    with True have "\<forall>y\<in>set xs. f y \<noteq> f x" by (metis image_eqI)
    then have "filter (\<lambda>y. f y = f x) xs = []" by (simp add: filter_empty_conv)
    with True show ?thesis by simp
  next
    case False
    with Cons show ?thesis by auto
  qed
qed

section \<open>The contact ledger\<close>

lemma find_source_Some: "find_source d i = Some s \<Longrightarrow> s \<in> set (sources d) \<and> src_id s = i"
  unfolding find_source_def by (auto simp: find_Some_iff)

lemma find_contact_Some: "find_contact d i = Some c \<Longrightarrow> c \<in> set (contacts d) \<and> c_id c = i"
  unfolding find_contact_def by (auto simp: find_Some_iff)

lemma create_contact_found:
  assumes "find_source d (ci_source_id contact_in) = Some src"
    and "get_or_create_lead d (lead_external_id contact_in) (ci_lead_name contact_in) = (d1, Inr l)"
  shows "create_contact d now uniform contact_in =
     (d1\<lparr>contacts := contacts d1 @
          [\<lparr>c_id = fresh_id (map c_id (contacts d1)), c_lead_id = lead_id l,
            c_source_id = ci_source_id contact_in,
            c_operator_id = map_option op_id (choose_operator_for_source d (ci_source_id contact_in) uniform),
            status = Active, created_at = now, payload = ci_payload contact_in\<rparr>]\<rparr>,
      Inr \<lparr>c_id = fresh_id (map c_id (contacts d1)), c_lead_id = lead_id l,
            c_source_id = ci_source_id contact_in,
            c_operator_id = map_option op_id (choose_operator_for_source d (ci_source_id contact_in) uniform),
            status = Active, created_at = now, payload = ci_payload contact_in\<rparr>)"
proof -
  from assms(1) have sid: "src_id src = ci_source_id contact_in" by (simp add: find_source_Some)
  from get_or_create_lead_frame [OF assms(2)]
  have "choose_operator_for_source d1 (ci_source_id contact_in) uniform =
        choose_operator_for_source d (ci_source_id contact_in) uniform"
    by (intro choose_cong) simp_all
  with assms sid show ?thesis by (simp add: create_contact_def Let_def)
qed

lemma create_contact_missing:
  "find_source d (ci_source_id contact_in) = None \<Longrightarrow>
   create_contact d now uniform contact_in = (d, Inl (HTTPException 404 ''Source not found''))"
  by (simp add: create_contact_def)

section \<open>The fixtures, evaluated\<close>

lemma candidates_weights_test_db: "candidates weights_test_db 1 = [(op1, 1), (op2, 3)]"
  by (simp add: candidates_def weights_query_def List.map_filter_def find_operator_def
      weights_test_db_def op1_def op2_def active_count_def)

lemma choose_weights_test_db:
  "choose_operator_for_source weights_test_db 1 (\<lambda>a b. 5 / 2) = Some op2"
  by (simp add: choose_operator_for_source_def candidates_weights_test_db Let_def float_add_small)

lemma candidates_zero_weight_db: "candidates zero_weight_db 1 = [(op2, 3)]"
  by (simp add: candidates_def weights_query_def List.map_filter_def find_operator_def
      zero_weight_db_def weights_test_db_def op1_def op2_def active_count_def)

lemma choose_zero_weight_db:
  "choose_operator_for_source zero_weight_db 1 (\<lambda>a b. 0) = Some op2"
  by (simp add: choose_operator_for_source_def candidates_zero_weight_db Let_def float_add_small)

lemma candidates_load_limit_test_db: "candidates load_limit_test_db 1 = []"
  by (simp add: candidates_def weights_query_def List.map_filter_def find_operator_def
      load_limit_test_db_def limited_op_def active_count_def)

lemma choose_load_limit_test_db:
  "choose_operator_for_source load_limit_test_db 1 uniform = None"
  by (simp add: choose_operator_for_source_def candidates_load_limit_test_db)

lemma get_or_create_lead_weights_test_db:
  "get_or_create_lead weights_test_db ''u1'' (Some ''Alice'') =
     (weights_test_db\<lparr>leads := [\<lparr>lead_id = 1, external_id = ''u1'', lead_name = Some ''Alice''\<rparr>]\<rparr>,
      Inr \<lparr>lead_id = 1, external_id = ''u1'', lead_name = Some ''Alice''\<rparr>)"
  by (simp add: get_or_create_lead_def get_or_create_lead_after_def lead_lookup_def
      weights_test_db_def fresh_id_Nil Let_def)

lemma create_contact_weights_test_db:
  "create_contact weights_test_db 7 (\<lambda>a b. 5 / 2) alice_contact =
     (weights_test_db
        \<lparr>leads := [\<lparr>lead_id = 1, external_id = ''u1'', lead_name = Some ''Alice''\<rparr>],
         contacts := [\<lparr>c_id = 1, c_lead_id = 1, c_source_id = 1, c_operator_id = Some 2,
                        status = Active, created_at = 7, payload = Some ''hello''\<rparr>]\<rparr>,
      Inr \<lparr>c_id = 1, c_lead_id = 1, c_source_id = 1, c_operator_id = Some 2,
            status = Active, created_at = 7, payload = Some ''hello''\<rparr>)"
proof -
  have src: "find_source weights_test_db (ci_source_id alice_contact) =
      Some \<lparr>src_id = 1, src_name = ''Bot A'', src_code = Some ''bot_a''\<rparr>"
    by (simp add: find_source_def weights_test_db_def alice_contact_def)
  have l: "get_or_create_lead weights_test_db (lead_external_id alice_contact) (ci_lead_name alice_contact) =
     (weights_test_db\<lparr>leads := [\<lparr>lead_id = 1, external_id = ''u1'', lead_name = Some ''Alice''\<rparr>]\<rparr>,
      Inr \<lparr>lead_id = 1, external_id = ''u1'', lead_name = Some ''Alice''\<rparr>)"
    by (simp add: alice_contact_def get_or_create_lead_weights_test_db)
  have ch: "choose_operator_for_source weights_test_db (ci_source_id alice_contact) (\<lambda>a b. 5 / 2) = Some op2"
    by (simp add: alice_contact_def choose_weights_test_db)
  have c0: "contacts weights_test_db = []" by (simp add: weights_test_db_def)
  show ?thesis
    unfolding create_contact_found [OF src l] ch
    by (simp add: c0 fresh_id_Nil alice_contact_def op2_def)
qed

lemma leads_unique_weights_test_db: "leads_unique weights_test_db"
  by (simp add: leads_unique_def weights_test_db_def)

lemma get_or_create_lead_alice:
  "get_or_create_lead weights_test_db ''u1'' (Some ''Alice'') = (alice_db, Inr alice_lead)"
  by (simp add: get_or_create_lead_weights_test_db alice_db_def alice_lead_def)

section \<open>Weighted choice (C1, C4)\<close>

text \<open>
  Claim C1 says that for every non-empty candidate list and every draw in \<open>[0, total)\<close>
  the result is the first candidate whose cumulative weight is at least the draw. It is
  not so for every list: the running sum is a float. With the weights \<open>2 ^ 53 + 3\<close> and 2
  and the draw \<open>2 ^ 53 + 4\<close>, below the total \<open>2 ^ 53 + 5\<close>, the cumulative weight of the
  first candidate is below the draw, so the first candidate to reach it is the second
  one; but \<open>0.0 + (2 ^ 53 + 3)\<close> is \<open>2 ^ 53 + 4\<close> in doubles, and the first operator is
  returned.
\<close>

theorem choose_first_cumulative_counterexample:
  "candidates big_weights_db 1 = [(op1, 9007199254740995), (op2, 2)]
   \<and> (0 :: real) \<le> 9007199254740996
   \<and> (9007199254740996 :: real) < real_of_int (sum_list (map snd (candidates big_weights_db 1)))
   \<and> real_of_int (sum_list (map snd (take 1 (candidates big_weights_db 1)))) < (9007199254740996 :: real)
   \<and> (9007199254740996 :: real) \<le> real_of_int (sum_list (map snd (take 2 (candidates big_weights_db 1))))
   \<and> fst (candidates big_weights_db 1 ! 1) = op2
   \<and> op1 \<noteq> op2
   \<and> choose_operator_for_source big_weights_db 1 (\<lambda>a b. 9007199254740996) = Some op1"
proof -
  have c: "candidates big_weights_db 1 = [(op1, 9007199254740995), (op2, 2)]"
    by (simp add: candidates_def weights_query_def List.map_filter_def find_operator_def
        big_weights_db_def weights_test_db_def op1_def op2_def active_count_def)
  have f: "float_add 0 9007199254740995 = 9007199254740996"
    by (simp add: float_add_def round_double_def round_nat_def bitlen.simps Let_def)
  have "choose_operator_for_source big_weights_db 1 (\<lambda>a b. 9007199254740996) = Some op1"
    by (simp add: choose_operator_for_source_def c Let_def f)
  moreover have "op1 \<noteq> op2" by (simp add: op1_def op2_def)
  ultimately show ?thesis by (simp add: c)
qed

text \<open>
  Claim C1, amended. When the candidate list is not empty, its total weight is at most
  \<open>2 ^ 53\<close> (so that every running sum is a double and the float accumulator is exact) and
  the draw \<open>r\<close> of the random source lies in \<open>[0, total)\<close>, \<open>choose_operator_for_source\<close>
  returns the first candidate, in the order of the list, whose cumulative weight is at
  least \<open>r\<close>: the candidate at an index \<open>i\<close> whose cumulative weight reaches \<open>r\<close> while
  that of every earlier index is below \<open>r\<close>. (The witness is the test's case: weights 1
  and 3, draw 2.5 of total 4, result the second operator.)
\<close>

theorem choose_first_cumulative:
  assumes "candidates d sid = cands" and "cands \<noteq> []"
    and "sum_list (map snd cands) \<le> 2 ^ 53"
    and "r = uniform 0 (real_of_int (sum_list (map snd cands)))"
    and "0 \<le> r" and "r < real_of_int (sum_list (map snd cands))"
  shows "\<exists>i<length cands.
           choose_operator_for_source d sid uniform = Some (fst (cands ! i))
           \<and> r \<le> real_of_int (sum_list (map snd (take (Suc i) cands)))
           \<and> (\<forall>j<i. real_of_int (sum_list (map snd (take (Suc j) cands))) < r)"
proof -
  from assms(1) have pos: "\<forall>c\<in>set cands. 0 < snd c" using candidates_positive by blast
  with assms(3) have ag: "accumulate 0 r cands = accumulate_exact 0 r cands"
    using accumulate_exact_agree [of cands 0 r] by simp
  from assms(2,6) have "\<exists>op. accumulate_exact 0 r cands = Some op"
    by (intro accumulate_exact_reaches) simp_all
  then obtain op where op: "accumulate_exact 0 r cands = Some op" ..
  from accumulate_exact_first [OF op] obtain i where i: "i < length cands" "op = fst (cands ! i)"
    "r \<le> real_of_int (sum_list (map snd (take (Suc i) cands)))"
    "\<forall>j<i. real_of_int (sum_list (map snd (take (Suc j) cands))) < r"
    by auto
  from assms(1,2,4) op ag have "choose_operator_for_source d sid uniform = Some op"
    by (simp add: choose_unfold)
  with i show ?thesis by blast
qed

theorem choose_first_cumulative_witness:
  "candidates weights_test_db 1 = [(op1, 1), (op2, 3)]
   \<and> real_of_int (sum_list (map snd [(op1, 1), (op2, 3)])) = 4
   \<and> sum_list (map snd [(op1, 1 :: int), (op2, 3)]) \<le> 2 ^ 53
   \<and> choose_operator_for_source weights_test_db 1 (\<lambda>a b. 5 / 2) = Some op2"
proof -
  let ?cands = "[(op1, 1 :: int), (op2, 3)]"
  let ?u = "\<lambda>(a :: real) (b :: real). 5 / 2 :: real"
  have c: "candidates weights_test_db 1 = ?cands" by (rule candidates_weights_test_db)
  have "\<exists>i<length ?cands.
           choose_operator_for_source weights_test_db 1 ?u = Some (fst (?cands ! i))
           \<and> (5 / 2 :: real) \<le> real_of_int (sum_list (map snd (take (Suc i) ?cands)))
           \<and> (\<forall>j<i. real_of_int (sum_list (map snd (take (Suc j) ?cands))) < 5 / 2)"
    by (rule choose_first_cumulative [OF c]) simp_all
  then obtain i where i: "i < length ?cands"
    "choose_operator_for_source weights_test_db 1 ?u = Some (fst (?cands ! i))"
    "(5 / 2 :: real) \<le> real_of_int (sum_list (map snd (take (Suc i) ?cands)))"
    by blast
  from i(1) have "i = 0 \<or> i = 1" by auto
  with i(3) have "i = 1" by auto
  with i(2) have "choose_operator_for_source weights_test_db 1 ?u = Some op2" by simp
  with c show ?thesis by simp
qed

text \<open>
  Claim C4. In exact arithmetic, for every non-empty candidate list and every draw \<open>r\<close>
  with \<open>0 \<le> r < total\<close>, the accumulation loop returns a candidate and the selection
  returns that candidate: the loop never runs off the end of the list into the fallback.
  So it is for the loop on any list of weights and for the selection with the accumulator
  in exact arithmetic on any database; and so it is for \<open>choose_operator_for_source\<close> as
  the source has it wherever its float arithmetic is exact, which is for a total weight of
  at most \<open>2 ^ 53\<close>.
\<close>

theorem accumulate_before_fallback:
  "(cs \<noteq> [] \<and> 0 \<le> r' \<and> r' < real_of_int (sum_list (map snd cs)) \<longrightarrow>
      (\<exists>op. accumulate_exact 0 r' cs = Some op))
   \<and> (candidates d sid \<noteq> []
       \<and> r = uniform 0 (real_of_int (sum_list (map snd (candidates d sid))))
       \<and> 0 \<le> r \<and> r < real_of_int (sum_list (map snd (candidates d sid))) \<longrightarrow>
      (\<exists>op. accumulate_exact 0 r (candidates d sid) = Some op
            \<and> choose_operator_exact d sid uniform = Some op)
      \<and> (sum_list (map snd (candidates d sid)) \<le> 2 ^ 53 \<longrightarrow>
          (\<exists>op. accumulate 0 r (candidates d sid) = Some op
                \<and> choose_operator_for_source d sid uniform = Some op)))"
proof (intro conjI impI)
  assume "cs \<noteq> [] \<and> 0 \<le> r' \<and> r' < real_of_int (sum_list (map snd cs))"
  then show "\<exists>op. accumulate_exact 0 r' cs = Some op"
    by (intro accumulate_exact_reaches) simp_all
next
  assume a: "candidates d sid \<noteq> []
       \<and> r = uniform 0 (real_of_int (sum_list (map snd (candidates d sid))))
       \<and> 0 \<le> r \<and> r < real_of_int (sum_list (map snd (candidates d sid)))"
  then have "\<exists>op. accumulate_exact 0 r (candidates d sid) = Some op"
    by (intro accumulate_exact_reaches) simp_all
  then obtain op where op: "accumulate_exact 0 r (candidates d sid) = Some op" ..
  with a have "choose_operator_exact d sid uniform = Some op" by (simp add: choose_exact_unfold)
  with op show "\<exists>op. accumulate_exact 0 r (candidates d sid) = Some op
            \<and> choose_operator_exact d sid uniform = Some op"
    by blast
next
  assume a: "candidates d sid \<noteq> []
       \<and> r = uniform 0 (real_of_int (sum_list (map snd (candidates d sid))))
       \<and> 0 \<le> r \<and> r < real_of_int (sum_list (map snd (candidates d sid)))"
    and b: "sum_list (map snd (candidates d sid)) \<le> 2 ^ 53"
  from a have "\<exists>op. accumulate_exact 0 r (candidates d sid) = Some op"
    by (intro accumulate_exact_reaches) simp_all
  then obtain op where op: "accumulate_exact 0 r (candidates d sid) = Some op" ..
  from b have "accumulate 0 r (candidates d sid) = accumulate_exact 0 r (candidates d sid)"
    using accumulate_exact_agree [of "candidates d sid" 0 r] candidates_positive [of d sid]
    by simp
  with op have acc: "accumulate 0 r (candidates d sid) = Some op" by simp
  with a have "choose_operator_for_source d sid uniform = Some op" by (simp add: choose_unfold)
  with acc show "\<exists>op. accumulate 0 r (candidates d sid) = Some op
                \<and> choose_operator_for_source d sid uniform = Some op"
    by blast
qed

theorem accumulate_before_fallback_witness:
  "candidates weights_test_db 1 = [(op1, 1), (op2, 3)]
   \<and> (0 :: real) \<le> 1 / 2
   \<and> (1 / 2 :: real) < real_of_int (sum_list (map snd (candidates weights_test_db 1)))
   \<and> sum_list (map snd (candidates weights_test_db 1)) \<le> 2 ^ 53
   \<and> accumulate 0 (1 / 2) (candidates weights_test_db 1) = Some op1
   \<and> choose_operator_for_source weights_test_db 1 (\<lambda>a b. 1 / 2) = Some op1
   \<and> choose_operator_exact weights_test_db 1 (\<lambda>a b. 1 / 2) = Some op1
   \<and> fst (last (candidates weights_test_db 1)) = op2
   \<and> op1 \<noteq> op2"
proof -
  note c = candidates_weights_test_db
  have h: "candidates weights_test_db 1 \<noteq> []
       \<and> (1 / 2 :: real) = (\<lambda>a b. 1 / 2) 0 (real_of_int (sum_list (map snd (candidates weights_test_db 1))))
       \<and> (0 :: real) \<le> 1 / 2
       \<and> (1 / 2 :: real) < real_of_int (sum_list (map snd (candidates weights_test_db 1)))"
    by (simp add: c)
  have b: "sum_list (map snd (candidates weights_test_db 1)) \<le> 2 ^ 53" by (simp add: c)
  note t = accumulate_before_fallback [where d = weights_test_db and sid = 1
      and uniform = "\<lambda>a b. 1 / 2" and r = "1 / 2" and cs = "[(op1, 1), (op2, 3)]" and r' = "1 / 2",
      THEN conjunct2, THEN mp, OF h]
  from t [THEN conjunct1] obtain op where e: "accumulate_exact 0 (1 / 2) (candidates weights_test_db 1) = Some op"
    "choose_operator_exact weights_test_db 1 (\<lambda>a b. 1 / 2) = Some op"
    by blast
  from e(1) have "op = op1" by (simp add: c)
  with e(2) have x: "choose_operator_exact weights_test_db 1 (\<lambda>a b. 1 / 2) = Some op1" by simp
  from t [THEN conjunct2, THEN mp, OF b] obtain op' where
    f: "accumulate 0 (1 / 2) (candidates weights_test_db 1) = Some op'"
    "choose_operator_for_source weights_test_db 1 (\<lambda>a b. 1 / 2) = Some op'"
    by blast
  from f(1) have "op' = op1" by (simp add: c float_add_small)
  with f have y: "accumulate 0 (1 / 2) (candidates weights_test_db 1) = Some op1"
    "choose_operator_for_source weights_test_db 1 (\<lambda>a b. 1 / 2) = Some op1"
    by simp_all
  have "op1 \<noteq> op2" by (simp add: op1_def op2_def)
  with x y show ?thesis by (simp add: c)
qed

section \<open>Eligibility of the selected operator (C2, C3)\<close>

text \<open>
  Claim C2. An operator that \<open>choose_operator_for_source\<close> returns is the active operator
  a weight row of the requested source references, the weight of that row is positive, and
  the operator's count of active contacts is below its load limit. So an operator all of
  whose weight rows for the source are zero or negative is never returned, nor one at or
  over its load limit; and the operator of a contact that \<open>create_contact\<close> creates met
  these conditions in the database the selection read.
\<close>

theorem selected_operator_eligible:
  "(choose_operator_for_source d sid uniform = Some op \<longrightarrow>
      find_operator d (op_id op) = Some op \<and> is_active op
      \<and> (\<exists>w\<in>set (weights d). w_operator_id w = op_id op \<and> w_source_id w = sid \<and> 0 < weight w)
      \<and> active_count d (op_id op) < load_limit op)
   \<and> ((\<forall>w\<in>set (weights d). w_operator_id w = oid \<and> w_source_id w = sid \<longrightarrow> weight w \<le> 0) \<longrightarrow>
      (\<forall>op'. choose_operator_for_source d sid uniform = Some op' \<longrightarrow> op_id op' \<noteq> oid))
   \<and> (find_operator d oid = Some op'' \<and> load_limit op'' \<le> active_count d oid \<longrightarrow>
      (\<forall>op'. choose_operator_for_source d sid uniform = Some op' \<longrightarrow> op_id op' \<noteq> oid))
   \<and> (create_contact d now uniform contact_in = (d', Inr c) \<and> c_operator_id c = Some cid \<longrightarrow>
      (\<exists>op'. find_operator d cid = Some op' \<and> is_active op'
         \<and> (\<exists>w\<in>set (weights d). w_operator_id w = cid \<and> w_source_id w = ci_source_id contact_in
                \<and> 0 < weight w)
         \<and> active_count d cid < load_limit op'))"
proof (intro conjI impI allI)
  assume "choose_operator_for_source d sid uniform = Some op"
  from choose_Some_eligible [OF this]
  show "find_operator d (op_id op) = Some op" and "is_active op"
    and "\<exists>w\<in>set (weights d). w_operator_id w = op_id op \<and> w_source_id w = sid \<and> 0 < weight w"
    and "active_count d (op_id op) < load_limit op"
    by simp_all
next
  fix op'
  assume a: "\<forall>w\<in>set (weights d). w_operator_id w = oid \<and> w_source_id w = sid \<longrightarrow> weight w \<le> 0"
    and "choose_operator_for_source d sid uniform = Some op'"
  from choose_Some_eligible [OF this(2)] a show "op_id op' \<noteq> oid" by force
next
  fix op'
  assume a: "find_operator d oid = Some op'' \<and> load_limit op'' \<le> active_count d oid"
    and "choose_operator_for_source d sid uniform = Some op'"
  from choose_Some_eligible [OF this(2)] a show "op_id op' \<noteq> oid" by force
next
  assume a: "create_contact d now uniform contact_in = (d', Inr c) \<and> c_operator_id c = Some cid"
  show "\<exists>op'. find_operator d cid = Some op' \<and> is_active op'
         \<and> (\<exists>w\<in>set (weights d). w_operator_id w = cid \<and> w_source_id w = ci_source_id contact_in
                \<and> 0 < weight w)
         \<and> active_count d cid < load_limit op'"
  proof (cases "find_source d (ci_source_id contact_in)")
    case None
    with a show ?thesis by (simp add: create_contact_missing)
  next
    case (Some src)
    obtain d1 l where
      "get_or_create_lead d (lead_external_id contact_in) (ci_lead_name contact_in) = (d1, Inr l)"
      using get_or_create_lead_ok by blast
    from create_contact_found [OF Some this, of now uniform] a
    have "map_option op_id (choose_operator_for_source d (ci_source_id contact_in) uniform) = Some cid"
      by auto
    then obtain op' where op': "choose_operator_for_source d (ci_source_id contact_in) uniform = Some op'"
      "op_id op' = cid" by auto
    from choose_Some_eligible [OF op'(1)] op'(2) show ?thesis by auto
  qed
qed

theorem selected_operator_eligible_witness:
  "choose_operator_for_source weights_test_db 1 (\<lambda>a b. 5 / 2) = Some op2
   \<and> find_operator weights_test_db (op_id op2) = Some op2 \<and> is_active op2
   \<and> active_count weights_test_db (op_id op2) < load_limit op2
   \<and> list_ex (\<lambda>w. w_operator_id w = op_id op2 \<and> w_source_id w = 1 \<and> 0 < weight w)
        (weights weights_test_db)
   \<and> list_all (\<lambda>w. \<not> (w_operator_id w = 1 \<and> w_source_id w = 1) \<or> weight w \<le> 0) (weights zero_weight_db)
   \<and> choose_operator_for_source zero_weight_db 1 (\<lambda>a b. 0) = Some op2 \<and> op_id op2 \<noteq> 1
   \<and> find_operator load_limit_test_db 1 = Some limited_op
   \<and> load_limit limited_op \<le> active_count load_limit_test_db 1
   \<and> choose_operator_for_source load_limit_test_db 1 (\<lambda>a b. 0) = None
   \<and> snd (create_contact weights_test_db 7 (\<lambda>a b. 5 / 2) alice_contact) =
       Inr \<lparr>c_id = 1, c_lead_id = 1, c_source_id = 1, c_operator_id = Some 2,
            status = Active, created_at = 7, payload = Some ''hello''\<rparr>
   \<and> find_operator weights_test_db 2 = Some op2"
proof -
  note thm1 = selected_operator_eligible [where d = weights_test_db and sid = 1
      and uniform = "\<lambda>a b. 5 / 2" and op = op2 and contact_in = alice_contact and now = 7
      and cid = 2 and oid = 0 and op'' = op1
      and d' = "weights_test_db
        \<lparr>leads := [\<lparr>lead_id = 1, external_id = ''u1'', lead_name = Some ''Alice''\<rparr>],
         contacts := [\<lparr>c_id = 1, c_lead_id = 1, c_source_id = 1, c_operator_id = Some 2,
                        status = Active, created_at = 7, payload = Some ''hello''\<rparr>]\<rparr>"
      and c = "\<lparr>c_id = 1, c_lead_id = 1, c_source_id = 1, c_operator_id = Some 2,
            status = Active, created_at = 7, payload = Some ''hello''\<rparr>"]
  from thm1 [THEN conjunct1, THEN mp, OF choose_weights_test_db]
  have a: "find_operator weights_test_db (op_id op2) = Some op2 \<and> is_active op2
      \<and> (\<exists>w\<in>set (weights weights_test_db). w_operator_id w = op_id op2 \<and> w_source_id w = 1 \<and> 0 < weight w)
      \<and> active_count weights_test_db (op_id op2) < load_limit op2"
    by blast
  have "\<exists>op'. find_operator weights_test_db 2 = Some op' \<and> is_active op'
      \<and> (\<exists>w\<in>set (weights weights_test_db). w_operator_id w = 2
             \<and> w_source_id w = ci_source_id alice_contact \<and> 0 < weight w)
      \<and> active_count weights_test_db 2 < load_limit op'"
    by (rule thm1 [THEN conjunct2, THEN conjunct2, THEN conjunct2, THEN mp])
      (simp add: create_contact_weights_test_db)
  then have b: "\<exists>op'. find_operator weights_test_db 2 = Some op' \<and> is_active op'
      \<and> active_count weights_test_db 2 < load_limit op'"
    by blast
  have zw: "list_all (\<lambda>w. \<not> (w_operator_id w = 1 \<and> w_source_id w = 1) \<or> weight w \<le> 0)
      (weights zero_weight_db)"
    by (simp add: zero_weight_db_def)
  then have "\<forall>w\<in>set (weights zero_weight_db). w_operator_id w = 1 \<and> w_source_id w = 1 \<longrightarrow> weight w \<le> 0"
    by (auto simp: list_all_iff)
  from selected_operator_eligible [where d = zero_weight_db and sid = 1 and oid = 1
      and uniform = "\<lambda>a b. 0", THEN conjunct2, THEN conjunct1, THEN mp, OF this]
    choose_zero_weight_db
  have c: "op_id op2 \<noteq> 1" by blast
  have fl: "find_operator load_limit_test_db 1 = Some limited_op"
    by (simp add: find_operator_def load_limit_test_db_def limited_op_def)
  have ll: "load_limit limited_op \<le> active_count load_limit_test_db 1"
    by (simp add: active_count_def load_limit_test_db_def limited_op_def)
  have f2: "find_operator weights_test_db 2 = Some op2"
    by (simp add: find_operator_def weights_test_db_def op1_def op2_def)
  from a have "list_ex (\<lambda>w. w_operator_id w = op_id op2 \<and> w_source_id w = 1 \<and> 0 < weight w)
        (weights weights_test_db)"
    by (simp add: list_ex_iff)
  with a c zw fl ll f2 show ?thesis
    by (simp add: choose_weights_test_db choose_zero_weight_db choose_load_limit_test_db
        create_contact_weights_test_db)
qed

text \<open>
  Claim C3. \<open>choose_operator_for_source\<close> returns \<open>None\<close> exactly when the candidate
  list is empty, that is when no weight row of the source has a positive weight and an
  active operator under its load limit. With a candidate left it returns an operator
  whatever the draw is; when the loop passes every candidate (as it does for a draw beyond
  the total, where the total is at most \<open>2 ^ 53\<close> and the float sums are exact) the
  result is the last candidate. (The witness is the test's case: the only weighted
  operator has load limit 1 and one active contact, and the result is \<open>None\<close>.)
\<close>

theorem choose_none_iff_no_candidate:
  "(choose_operator_for_source d sid uniform = None \<longleftrightarrow> candidates d sid = [])
   \<and> (candidates d sid = [] \<longleftrightarrow>
        \<not> (\<exists>w\<in>set (weights d). \<exists>op. w_source_id w = sid \<and> 0 < weight w
              \<and> find_operator d (w_operator_id w) = Some op \<and> is_active op
              \<and> active_count d (op_id op) < load_limit op))
   \<and> (candidates d sid \<noteq> [] \<longrightarrow>
        (\<exists>op. choose_operator_for_source d sid uniform = Some op)
        \<and> (accumulate 0 (uniform 0 (real_of_int (sum_list (map snd (candidates d sid)))))
              (candidates d sid) = None \<longrightarrow>
           choose_operator_for_source d sid uniform = Some (fst (last (candidates d sid))))
        \<and> (sum_list (map snd (candidates d sid)) \<le> 2 ^ 53
            \<and> real_of_int (sum_list (map snd (candidates d sid)))
              < uniform 0 (real_of_int (sum_list (map snd (candidates d sid)))) \<longrightarrow>
           choose_operator_for_source d sid uniform = Some (fst (last (candidates d sid)))))"
proof (intro conjI impI)
  show "choose_operator_for_source d sid uniform = None \<longleftrightarrow> candidates d sid = []"
    by (rule choose_None_iff)
  show "candidates d sid = [] \<longleftrightarrow>
        \<not> (\<exists>w\<in>set (weights d). \<exists>op. w_source_id w = sid \<and> 0 < weight w
              \<and> find_operator d (w_operator_id w) = Some op \<and> is_active op
              \<and> active_count d (op_id op) < load_limit op)"
    by (rule candidates_Nil_iff)
next
  assume ne: "candidates d sid \<noteq> []"
  then have "choose_operator_for_source d sid uniform \<noteq> None" by (simp add: choose_None_iff)
  then show "\<exists>op. choose_operator_for_source d sid uniform = Some op" by auto
next
  assume ne: "candidates d sid \<noteq> []"
    and "accumulate 0 (uniform 0 (real_of_int (sum_list (map snd (candidates d sid)))))
              (candidates d sid) = None"
  then show "choose_operator_for_source d sid uniform = Some (fst (last (candidates d sid)))"
    by (simp add: choose_unfold)
next
  assume ne: "candidates d sid \<noteq> []"
    and a: "sum_list (map snd (candidates d sid)) \<le> 2 ^ 53
            \<and> real_of_int (sum_list (map snd (candidates d sid)))
              < uniform 0 (real_of_int (sum_list (map snd (candidates d sid))))"
  then have "accumulate_exact 0 (uniform 0 (real_of_int (sum_list (map snd (candidates d sid)))))
              (candidates d sid) = None"
    by (intro accumulate_exact_none candidates_positive) simp
  moreover from a have "accumulate 0 (uniform 0 (real_of_int (sum_list (map snd (candidates d sid)))))
              (candidates d sid)
      = accumulate_exact 0 (uniform 0 (real_of_int (sum_list (map snd (candidates d sid)))))
              (candidates d sid)"
    using accumulate_exact_agree [of "candidates d sid" 0] candidates_positive [of d sid] by simp
  ultimately have "accumulate 0 (uniform 0 (real_of_int (sum_list (map snd (candidates d sid)))))
              (candidates d sid) = None"
    by simp
  with ne show "choose_operator_for_source d sid uniform = Some (fst (last (candidates d sid)))"
    by (simp add: choose_unfold)
qed

theorem choose_none_iff_no_candidate_witness:
  "candidates load_limit_test_db 1 = []
   \<and> choose_operator_for_source load_limit_test_db 1 (\<lambda>a b. 0) = None
   \<and> candidates weights_test_db 1 = [(op1, 1), (op2, 3)]
   \<and> sum_list (map snd (candidates weights_test_db 1)) \<le> 2 ^ 53
   \<and> real_of_int (sum_list (map snd (candidates weights_test_db 1))) < 5
   \<and> choose_operator_for_source weights_test_db 1 (\<lambda>a b. 5) = Some op2"
proof -
  have "choose_operator_for_source load_limit_test_db 1 (\<lambda>a b. 0) = None"
    using choose_none_iff_no_candidate [of load_limit_test_db 1 "\<lambda>a b. 0"]
      candidates_load_limit_test_db by blast
  moreover have "choose_operator_for_source weights_test_db 1 (\<lambda>a b. 5)
      = Some (fst (last (candidates weights_test_db 1)))"
    using choose_none_iff_no_candidate [of weights_test_db 1 "\<lambda>a b. 5"]
    by (simp add: candidates_weights_test_db)
  ultimately show ?thesis
    by (simp add: candidates_weights_test_db candidates_load_limit_test_db)
qed

section \<open>Lead idempotence and the creation race (C5, C7)\<close>

text \<open>
  Claim C5. On a table of leads that meets its constraints, \<open>get_or_create_lead\<close>
  returns a lead of the given \<open>external_id\<close>, after which the table holds exactly one
  lead of that \<open>external_id\<close>. Whatever calls follow (for this or any other
  \<open>external_id\<close>), it is still exactly one, and a further call for the
  \<open>external_id\<close> returns the lead of the same \<open>id\<close> and creates none. A call that
  finds the lead changes its name only when the stored name is empty or absent and the
  given name is not; a lead whose name is not empty is returned as it is by every later
  call.
\<close>

theorem get_or_create_lead_idempotent:
  assumes "leads_unique d"
    and "get_or_create_lead d eid name = (d1, r1)"
  shows "\<exists>l1. r1 = Inr l1 \<and> external_id l1 = eid \<and> lead_lookup d1 eid = Some l1
     \<and> length (filter (\<lambda>x. external_id x = eid) (leads d1)) = 1
     \<and> (\<forall>l0. lead_lookup d eid = Some l0 \<longrightarrow>
           l1 = l0\<lparr>lead_name := if truthy name \<and> \<not> truthy (lead_name l0) then name
                                 else lead_name l0\<rparr>
           \<and> map lead_id (leads d1) = map lead_id (leads d))
     \<and> (\<forall>cs name2. \<exists>l2 l3.
           lead_lookup (resolve_calls d1 cs) eid = Some l2 \<and> lead_id l2 = lead_id l1
         \<and> (truthy (lead_name l1) \<longrightarrow> l2 = l1)
         \<and> length (filter (\<lambda>x. external_id x = eid) (leads (resolve_calls d1 cs))) = 1
         \<and> snd (get_or_create_lead (resolve_calls d1 cs) eid name2) = Inr l3
         \<and> l3 = l2\<lparr>lead_name := if truthy name2 \<and> \<not> truthy (lead_name l2) then name2
                                  else lead_name l2\<rparr>
         \<and> lead_id l3 = lead_id l1
         \<and> (truthy (lead_name l1) \<longrightarrow> l3 = l1)
         \<and> map lead_id (leads (fst (get_or_create_lead (resolve_calls d1 cs) eid name2)))
             = map lead_id (leads (resolve_calls d1 cs)))"
proof -
  from get_or_create_lead_ok [of d eid name] assms(2) obtain l1 where r1: "r1 = Inr l1" by auto
  with assms(2) have g: "get_or_create_lead d eid name = (d1, Inr l1)" by simp
  from get_or_create_lead_lookup [OF g] have look1: "lead_lookup d1 eid = Some l1" .
  then have l1: "l1 \<in> set (leads d1)" "external_id l1 = eid" by (simp_all add: lead_lookup_Some)
  from get_or_create_lead_unique [OF assms(1) g] have u1: "leads_unique d1" .
  then have "distinct (map external_id (leads d1))" by (simp add: leads_unique_def)
  from unique_count_one [OF this l1(1)] l1(2)
  have c1: "length (filter (\<lambda>x. external_id x = eid) (leads d1)) = 1" by simp
  have first: "\<forall>l0. lead_lookup d eid = Some l0 \<longrightarrow>
           l1 = l0\<lparr>lead_name := if truthy name \<and> \<not> truthy (lead_name l0) then name
                                 else lead_name l0\<rparr>
           \<and> map lead_id (leads d1) = map lead_id (leads d)"
  proof (intro allI impI)
    fix l0 assume "lead_lookup d eid = Some l0"
    from get_or_create_lead_existing_result [OF this, of name] g
    show "l1 = l0\<lparr>lead_name := if truthy name \<and> \<not> truthy (lead_name l0) then name
                                 else lead_name l0\<rparr>
           \<and> map lead_id (leads d1) = map lead_id (leads d)"
      by simp
  qed
  have later: "\<exists>l2 l3.
           lead_lookup (resolve_calls d1 cs) eid = Some l2 \<and> lead_id l2 = lead_id l1
         \<and> (truthy (lead_name l1) \<longrightarrow> l2 = l1)
         \<and> length (filter (\<lambda>x. external_id x = eid) (leads (resolve_calls d1 cs))) = 1
         \<and> snd (get_or_create_lead (resolve_calls d1 cs) eid name2) = Inr l3
         \<and> l3 = l2\<lparr>lead_name := if truthy name2 \<and> \<not> truthy (lead_name l2) then name2
                                  else lead_name l2\<rparr>
         \<and> lead_id l3 = lead_id l1
         \<and> (truthy (lead_name l1) \<longrightarrow> l3 = l1)
         \<and> map lead_id (leads (fst (get_or_create_lead (resolve_calls d1 cs) eid name2)))
             = map lead_id (leads (resolve_calls d1 cs))" for cs name2
  proof -
    from resolve_calls_keeps [OF u1 look1, of cs] c1 obtain l2 where
      l2: "lead_lookup (resolve_calls d1 cs) eid = Some l2" "lead_id l2 = lead_id l1"
        "truthy (lead_name l1) \<longrightarrow> l2 = l1"
        "length (filter (\<lambda>x. external_id x = eid) (leads (resolve_calls d1 cs))) = 1"
      by auto
    let ?l3 = "l2\<lparr>lead_name := if truthy name2 \<and> \<not> truthy (lead_name l2) then name2
                                  else lead_name l2\<rparr>"
    from get_or_create_lead_existing_result [OF l2(1), of name2]
    have r: "snd (get_or_create_lead (resolve_calls d1 cs) eid name2) = Inr ?l3"
      "map lead_id (leads (fst (get_or_create_lead (resolve_calls d1 cs) eid name2)))
             = map lead_id (leads (resolve_calls d1 cs))"
      by simp_all
    have "truthy (lead_name l1) \<longrightarrow> ?l3 = l1"
    proof
      assume t: "truthy (lead_name l1)"
      with l2(3) have "l2 = l1" by simp
      with t show "?l3 = l1" by simp
    qed
    with l2 r show ?thesis by (intro exI [of _ l2] exI [of _ ?l3]) simp
  qed
  from r1 l1(2) look1 c1 first later show ?thesis by blast
qed

theorem get_or_create_lead_idempotent_witness:
  "leads_unique weights_test_db
   \<and> get_or_create_lead weights_test_db ''u1'' (Some ''Alice'') = (alice_db, Inr alice_lead)
   \<and> truthy (lead_name alice_lead)
   \<and> snd (get_or_create_lead (resolve_calls alice_db [(''u2'', None), (''u1'', Some ''Bob'')])
            ''u1'' None) = Inr alice_lead
   \<and> length (filter (\<lambda>x. external_id x = ''u1'')
        (leads (resolve_calls alice_db [(''u2'', None), (''u1'', Some ''Bob'')]))) = 1"
proof -
  have t: "truthy (lead_name alice_lead)" by (simp add: truthy_def alice_lead_def)
  from get_or_create_lead_idempotent [OF leads_unique_weights_test_db get_or_create_lead_alice]
  obtain l1 where l1: "Inr alice_lead = (Inr l1 :: error + lead)"
    and later: "\<forall>cs name2. \<exists>l2 l3.
           lead_lookup (resolve_calls alice_db cs) ''u1'' = Some l2 \<and> lead_id l2 = lead_id l1
         \<and> (truthy (lead_name l1) \<longrightarrow> l2 = l1)
         \<and> length (filter (\<lambda>x. external_id x = ''u1'') (leads (resolve_calls alice_db cs))) = 1
         \<and> snd (get_or_create_lead (resolve_calls alice_db cs) ''u1'' name2) = Inr l3
         \<and> l3 = l2\<lparr>lead_name := if truthy name2 \<and> \<not> truthy (lead_name l2) then name2
                                  else lead_name l2\<rparr>
         \<and> lead_id l3 = lead_id l1
         \<and> (truthy (lead_name l1) \<longrightarrow> l3 = l1)
         \<and> map lead_id (leads (fst (get_or_create_lead (resolve_calls alice_db cs) ''u1'' name2)))
             = map lead_id (leads (resolve_calls alice_db cs))"
    by blast
  from l1 have e: "l1 = alice_lead" by simp
  from later [rule_format, of "[(''u2'', None), (''u1'', Some ''Bob'')]" None] t
  have "snd (get_or_create_lead (resolve_calls alice_db [(''u2'', None), (''u1'', Some ''Bob'')])
            ''u1'' None) = Inr alice_lead
      \<and> length (filter (\<lambda>x. external_id x = ''u1'')
        (leads (resolve_calls alice_db [(''u2'', None), (''u1'', Some ''Bob'')]))) = 1"
    unfolding e by auto
  with t show ?thesis by (simp add: leads_unique_weights_test_db get_or_create_lead_alice)
qed

text \<open>
  Claim C7 says that a creation rejected by the unique constraint is answered by a second
  lookup that returns the winner's lead. It is not: the lookup of \<open>u1\<close> finds nothing in
  the first fixture, another session then commits a lead for \<open>u1\<close>, and the insert of
  the first session meets the constraint; the \<open>IntegrityError\<close> of its commit is the
  outcome of the call.
\<close>

theorem get_or_create_lead_race_counterexample:
  "lead_lookup weights_test_db ''u1'' = None
   \<and> fst (get_or_create_lead weights_test_db ''u1'' (Some ''Bob'')) = race_db
   \<and> lead_lookup race_db ''u1'' = Some \<lparr>lead_id = 1, external_id = ''u1'', lead_name = Some ''Bob''\<rparr>
   \<and> get_or_create_lead_after (lead_lookup weights_test_db ''u1'') race_db ''u1'' (Some ''Alice'')
       = (race_db, Inl IntegrityError)"
  by (simp add: lead_lookup_def get_or_create_lead_def get_or_create_lead_after_def
      weights_test_db_def race_db_def fresh_id_Nil Let_def)

text \<open>
  Claim C7, amended. When the lookup found nothing and the commit meets a database that
  holds a lead of that \<open>external_id\<close>, \<open>get_or_create_lead\<close> does not look up again: the
  \<open>IntegrityError\<close> propagates and the stored leads stay as they are. A call whose lookup
  and commit see the same database never meets the rejection.
\<close>

theorem get_or_create_lead_race_propagates:
  "(lead_lookup d0 eid = None \<and> lead_lookup d eid = Some w \<longrightarrow>
      get_or_create_lead_after (lead_lookup d0 eid) d eid name = (d, Inl IntegrityError))
   \<and> (\<exists>d1 l. get_or_create_lead d eid name = (d1, Inr l))"
proof (intro conjI impI)
  assume a: "lead_lookup d0 eid = None \<and> lead_lookup d eid = Some w"
  then have "lead_lookup d eid = Some w" by simp
  then have "w \<in> set (leads d)" "external_id w = eid" by (simp_all add: lead_lookup_Some)
  then have "list_ex (\<lambda>x. external_id x = eid) (leads d)" by (auto simp: list_ex_iff)
  with a show "get_or_create_lead_after (lead_lookup d0 eid) d eid name = (d, Inl IntegrityError)"
    by (simp add: get_or_create_lead_after_def)
next
  show "\<exists>d1 l. get_or_create_lead d eid name = (d1, Inr l)" by (rule get_or_create_lead_ok)
qed

theorem get_or_create_lead_race_propagates_witness:
  "lead_lookup weights_test_db ''u1'' = None
   \<and> lead_lookup race_db ''u1'' = Some \<lparr>lead_id = 1, external_id = ''u1'', lead_name = Some ''Bob''\<rparr>
   \<and> get_or_create_lead_after None race_db ''u1'' (Some ''Alice'') = (race_db, Inl IntegrityError)
   \<and> get_or_create_lead race_db ''u1'' (Some ''Alice'')
       = (race_db, Inr \<lparr>lead_id = 1, external_id = ''u1'', lead_name = Some ''Bob''\<rparr>)"
proof -
  have a: "lead_lookup weights_test_db ''u1'' = None"
    by (simp add: lead_lookup_def weights_test_db_def)
  have b: "lead_lookup race_db ''u1''
      = Some \<lparr>lead_id = 1, external_id = ''u1'', lead_name = Some ''Bob''\<rparr>"
    by (simp add: lead_lookup_def race_db_def)
  from get_or_create_lead_race_propagates [where ?d0.0 = weights_test_db and d = race_db
      and eid = "''u1''" and name = "Some ''Alice''", THEN conjunct1, THEN mp, OF conjI [OF a b]] a
  have "get_or_create_lead_after None race_db ''u1'' (Some ''Alice'') = (race_db, Inl IntegrityError)"
    by simp
  moreover have "get_or_create_lead race_db ''u1'' (Some ''Alice'')
       = (race_db, Inr \<lparr>lead_id = 1, external_id = ''u1'', lead_name = Some ''Bob''\<rparr>)"
    by (simp add: get_or_create_lead_existing [OF b] truthy_def)
  ultimately show ?thesis using a b by simp
qed

section \<open>Recording a contact (C8, C10, C6)\<close>

text \<open>
  Claim C8. For a request whose source exists, \<open>create_contact\<close> succeeds and appends
  exactly one contact to the table: its status is \<open>active\<close>, it references the lead that
  \<open>get_or_create_lead\<close> resolved and the source of the request, and its payload is the
  payload of the request as it came. When the selection returns \<open>None\<close> the contact is
  created all the same, with no operator.
\<close>

theorem create_contact_records:
  assumes "find_source d (ci_source_id contact_in) = Some src"
  shows "\<exists>d1 l c.
      get_or_create_lead d (lead_external_id contact_in) (ci_lead_name contact_in) = (d1, Inr l)
      \<and> create_contact d now uniform contact_in = (d1\<lparr>contacts := contacts d @ [c]\<rparr>, Inr c)
      \<and> lead_lookup d1 (lead_external_id contact_in) = Some l
      \<and> c_lead_id c = lead_id l
      \<and> c_source_id c = src_id src \<and> src_id src = ci_source_id contact_in
      \<and> c_operator_id c =
          map_option op_id (choose_operator_for_source d (ci_source_id contact_in) uniform)
      \<and> (choose_operator_for_source d (ci_source_id contact_in) uniform = None
           \<longrightarrow> c_operator_id c = None)
      \<and> status c = Active \<and> created_at c = now
      \<and> payload c = ci_payload contact_in"
proof -
  obtain d1 l where
    g: "get_or_create_lead d (lead_external_id contact_in) (ci_lead_name contact_in) = (d1, Inr l)"
    using get_or_create_lead_ok by blast
  let ?c = "\<lparr>c_id = fresh_id (map c_id (contacts d1)), c_lead_id = lead_id l,
            c_source_id = ci_source_id contact_in,
            c_operator_id = map_option op_id (choose_operator_for_source d (ci_source_id contact_in) uniform),
            status = Active, created_at = now, payload = ci_payload contact_in\<rparr>"
  from get_or_create_lead_frame [OF g] have cd: "contacts d1 = contacts d" by simp
  from create_contact_found [OF assms g, of now uniform] cd
  have "create_contact d now uniform contact_in = (d1\<lparr>contacts := contacts d @ [?c]\<rparr>, Inr ?c)"
    by simp
  moreover from assms have "src_id src = ci_source_id contact_in" by (simp add: find_source_Some)
  moreover note g get_or_create_lead_lookup [OF g]
  ultimately show ?thesis
    by (intro exI [of _ d1] exI [of _ l] exI [of _ ?c]) simp
qed

theorem create_contact_records_witness:
  "find_source weights_test_db (ci_source_id alice_contact)
     = Some \<lparr>src_id = 1, src_name = ''Bot A'', src_code = Some ''bot_a''\<rparr>
   \<and> snd (create_contact weights_test_db 7 (\<lambda>a b. 5 / 2) alice_contact) =
       Inr \<lparr>c_id = 1, c_lead_id = 1, c_source_id = 1, c_operator_id = Some 2,
            status = Active, created_at = 7, payload = Some ''hello''\<rparr>
   \<and> length (contacts (fst (create_contact weights_test_db 7 (\<lambda>a b. 5 / 2) alice_contact))) =
       Suc (length (contacts weights_test_db))
   \<and> find_source load_limit_test_db (ci_source_id alice_contact)
     = Some \<lparr>src_id = 1, src_name = ''Bot B'', src_code = Some ''bot_b''\<rparr>
   \<and> choose_operator_for_source load_limit_test_db (ci_source_id alice_contact) (\<lambda>a b. 0) = None
   \<and> (case snd (create_contact load_limit_test_db 7 (\<lambda>a b. 0) alice_contact) of
        Inl e \<Rightarrow> False
      | Inr c \<Rightarrow> c_operator_id c = None \<and> status c = Active \<and> c_source_id c = 1
                 \<and> payload c = Some ''hello'')
   \<and> length (contacts (fst (create_contact load_limit_test_db 7 (\<lambda>a b. 0) alice_contact))) =
       Suc (length (contacts load_limit_test_db))"
proof -
  have s1: "find_source weights_test_db (ci_source_id alice_contact)
     = Some \<lparr>src_id = 1, src_name = ''Bot A'', src_code = Some ''bot_a''\<rparr>"
    by (simp add: find_source_def weights_test_db_def alice_contact_def)
  have s2: "find_source load_limit_test_db (ci_source_id alice_contact)
     = Some \<lparr>src_id = 1, src_name = ''Bot B'', src_code = Some ''bot_b''\<rparr>"
    by (simp add: find_source_def load_limit_test_db_def alice_contact_def)
  have ch: "choose_operator_for_source load_limit_test_db (ci_source_id alice_contact) (\<lambda>a b. 0) = None"
    by (simp add: alice_contact_def choose_load_limit_test_db)
  from create_contact_records [OF s2, of 7 "\<lambda>a b. 0"] ch
  obtain d1 c where c: "create_contact load_limit_test_db 7 (\<lambda>a b. 0) alice_contact
        = (d1\<lparr>contacts := contacts load_limit_test_db @ [c]\<rparr>, Inr c)"
    "c_operator_id c = None" "status c = Active" "c_source_id c = 1"
    "payload c = ci_payload alice_contact"
    by auto
  from c have "(case snd (create_contact load_limit_test_db 7 (\<lambda>a b. 0) alice_contact) of
        Inl e \<Rightarrow> False
      | Inr c \<Rightarrow> c_operator_id c = None \<and> status c = Active \<and> c_source_id c = 1
                 \<and> payload c = Some ''hello'')"
    by (simp add: alice_contact_def)
  moreover from c have "length (contacts (fst (create_contact load_limit_test_db 7 (\<lambda>a b. 0) alice_contact))) =
       Suc (length (contacts load_limit_test_db))"
    by simp
  moreover have "contacts weights_test_db = []" by (simp add: weights_test_db_def)
  then have "length (contacts (fst (create_contact weights_test_db 7 (\<lambda>a b. 5 / 2) alice_contact))) =
       Suc (length (contacts weights_test_db))"
    by (simp add: create_contact_weights_test_db)
  ultimately show ?thesis using s1 s2 ch
    by (simp add: create_contact_weights_test_db)
qed

text \<open>
  Claim C10. \<open>create_contact\<close> with a source id that no source has fails with
  \<open>404 Source not found\<close> before any write: the database after the call is the database
  before it (no lead created, no name back-filled, no contact inserted).
\<close>

theorem create_contact_unknown_source_no_write:
  assumes "find_source d (ci_source_id contact_in) = None"
  shows "create_contact d now uniform contact_in = (d, Inl (HTTPException 404 ''Source not found''))"
  using assms by (rule create_contact_missing)

theorem create_contact_unknown_source_no_write_witness:
  "find_source load_limit_test_db (ci_source_id bob_contact) = None
   \<and> fst (create_contact load_limit_test_db 7 (\<lambda>a b. 0) bob_contact) = load_limit_test_db
   \<and> snd (create_contact load_limit_test_db 7 (\<lambda>a b. 0) bob_contact)
       = Inl (HTTPException 404 ''Source not found'')"
proof -
  have s: "find_source load_limit_test_db (ci_source_id bob_contact) = None"
    by (simp add: find_source_def load_limit_test_db_def bob_contact_def)
  from create_contact_unknown_source_no_write [OF s, of 7 "\<lambda>a b. 0"] s show ?thesis by simp
qed

text \<open>
  Claim C6 says that selection, too, fails for a source id that no source has. It does not:
  \<open>choose_operator_for_source\<close> never looks the source up and has no failing branch.
  In the first fixture no source has id 2, and the selection for source 2 returns
  \<open>None\<close>, the result it gives for any source without an eligible operator.
\<close>

theorem choose_unknown_source_counterexample:
  "find_source weights_test_db 2 = None
   \<and> choose_operator_for_source weights_test_db 2 (\<lambda>a b. 0) = None"
  by (simp add: find_source_def choose_operator_for_source_def candidates_def weights_query_def
      List.map_filter_def find_operator_def weights_test_db_def op1_def op2_def)

text \<open>
  Claim C6, amended. For a source id that no source has, \<open>create_contact\<close> fails with
  \<open>404 Source not found\<close>; \<open>choose_operator_for_source\<close> does not check the source
  and returns \<open>None\<close> when every weight row references an existing source (so that no
  row is for the missing one).
\<close>

theorem unknown_source_outcomes:
  "(find_source d (ci_source_id contact_in) = None \<longrightarrow>
      create_contact d now uniform contact_in = (d, Inl (HTTPException 404 ''Source not found'')))
   \<and> (find_source d sid = None \<and> (\<forall>w\<in>set (weights d). find_source d (w_source_id w) \<noteq> None) \<longrightarrow>
      choose_operator_for_source d sid uniform = None)"
proof (intro conjI impI)
  assume "find_source d (ci_source_id contact_in) = None"
  then show "create_contact d now uniform contact_in = (d, Inl (HTTPException 404 ''Source not found''))"
    by (rule create_contact_missing)
next
  assume a: "find_source d sid = None \<and> (\<forall>w\<in>set (weights d). find_source d (w_source_id w) \<noteq> None)"
  then have "\<forall>w\<in>set (weights d). w_source_id w \<noteq> sid" by auto
  then have "candidates d sid = []" unfolding candidates_Nil_iff by blast
  then show "choose_operator_for_source d sid uniform = None" by (simp add: choose_None_iff)
qed

theorem unknown_source_outcomes_witness:
  "find_source load_limit_test_db (ci_source_id bob_contact) = None
   \<and> create_contact load_limit_test_db 7 (\<lambda>a b. 0) bob_contact
       = (load_limit_test_db, Inl (HTTPException 404 ''Source not found''))
   \<and> find_source load_limit_test_db 9 = None
   \<and> list_all (\<lambda>w. find_source load_limit_test_db (w_source_id w) \<noteq> None) (weights load_limit_test_db)
   \<and> choose_operator_for_source load_limit_test_db 9 (\<lambda>a b. 0) = None"
proof -
  have s: "find_source load_limit_test_db 9 = None"
    by (simp add: find_source_def load_limit_test_db_def)
  have sb: "find_source load_limit_test_db (ci_source_id bob_contact) = None"
    by (simp add: bob_contact_def s)
  have ri: "list_all (\<lambda>w. find_source load_limit_test_db (w_source_id w) \<noteq> None)
      (weights load_limit_test_db)"
    by (simp add: find_source_def load_limit_test_db_def)
  then have ri': "\<forall>w\<in>set (weights load_limit_test_db). find_source load_limit_test_db (w_source_id w) \<noteq> None"
    by (simp add: list_all_iff)
  note t = unknown_source_outcomes [where d = load_limit_test_db and contact_in = bob_contact
      and sid = 9 and now = 7 and uniform = "\<lambda>a b. 0"]
  from t [THEN conjunct1, THEN mp, OF sb] t [THEN conjunct2, THEN mp, OF conjI [OF s ri']] s sb ri
  show ?thesis by simp
qed

section \<open>Changing the status of a contact (C9)\<close>

text \<open>
  Claim C9. For an existing contact id and any status, \<open>update_contact_status\<close> succeeds
  whatever the stored status is (so \<open>closed\<close> to \<open>active\<close> too), returns the contact
  with the new status and every other field as it was (lead, source, operator, creation
  time, payload), stores it, and leaves every row of another id and every other table
  unchanged.
\<close>

theorem update_contact_status_frame:
  assumes "find_contact d contact_id = Some c0"
  shows "\<exists>d' c'. update_contact_status d contact_id st = (d', Inr c')
      \<and> c' = c0\<lparr>status := st\<rparr> \<and> status c' = st
      \<and> c_id c' = c_id c0 \<and> c_lead_id c' = c_lead_id c0 \<and> c_source_id c' = c_source_id c0
      \<and> c_operator_id c' = c_operator_id c0 \<and> created_at c' = created_at c0
      \<and> payload c' = payload c0
      \<and> find_contact d' contact_id = Some c'
      \<and> length (contacts d') = length (contacts d)
      \<and> (\<forall>i<length (contacts d).
            (c_id (contacts d ! i) = contact_id \<longrightarrow>
               contacts d' ! i = (contacts d ! i)\<lparr>status := st\<rparr>)
          \<and> (c_id (contacts d ! i) \<noteq> contact_id \<longrightarrow> contacts d' ! i = contacts d ! i))
      \<and> operators d' = operators d \<and> leads d' = leads d \<and> sources d' = sources d
      \<and> weights d' = weights d"
proof -
  let ?f = "\<lambda>x. if c_id x = contact_id then x\<lparr>status := st\<rparr> else x"
  let ?d' = "d\<lparr>contacts := map ?f (contacts d)\<rparr>"
  from assms have u: "update_contact_status d contact_id st = (?d', Inr (c0\<lparr>status := st\<rparr>))"
    by (simp add: update_contact_status_def)
  from assms have id0: "c_id c0 = contact_id" by (simp add: find_contact_Some)
  have "find (\<lambda>c. c_id c = contact_id) (map ?f (contacts d))
      = map_option ?f (find (\<lambda>c. c_id c = contact_id) (contacts d))"
    by (rule find_map_update) simp
  with assms id0 have f: "find_contact ?d' contact_id = Some (c0\<lparr>status := st\<rparr>)"
    by (simp add: find_contact_def)
  show ?thesis
    by (intro exI [of _ ?d'] exI [of _ "c0\<lparr>status := st\<rparr>"]) (simp add: u f)
qed

theorem update_contact_status_frame_witness:
  "find_contact load_limit_test_db 1
     = Some \<lparr>c_id = 1, c_lead_id = 1, c_source_id = 1, c_operator_id = Some 1,
             status = Active, created_at = 0, payload = Some ''first contact''\<rparr>
   \<and> update_contact_status load_limit_test_db 1 Closed
     = (load_limit_test_db\<lparr>contacts :=
          [\<lparr>c_id = 1, c_lead_id = 1, c_source_id = 1, c_operator_id = Some 1,
            status = Closed, created_at = 0, payload = Some ''first contact''\<rparr>]\<rparr>,
        Inr \<lparr>c_id = 1, c_lead_id = 1, c_source_id = 1, c_operator_id = Some 1,
             status = Closed, created_at = 0, payload = Some ''first contact''\<rparr>)
   \<and> update_contact_status (fst (update_contact_status load_limit_test_db 1 Closed)) 1 Active
     = (load_limit_test_db, Inr \<lparr>c_id = 1, c_lead_id = 1, c_source_id = 1, c_operator_id = Some 1,
             status = Active, created_at = 0, payload = Some ''first contact''\<rparr>)"
proof -
  let ?c = "\<lparr>c_id = 1, c_lead_id = 1, c_source_id = 1, c_operator_id = Some 1,
             status = Active, created_at = 0, payload = Some ''first contact''\<rparr>"
  have f: "find_contact load_limit_test_db 1 = Some ?c"
    by (simp add: find_contact_def load_limit_test_db_def)
  have cs: "contacts load_limit_test_db = [?c]" by (simp add: load_limit_test_db_def)
  from update_contact_status_frame [OF f, of Closed]
  obtain d' where dd: "update_contact_status load_limit_test_db 1 Closed = (d', Inr (?c\<lparr>status := Closed\<rparr>))"
    "length (contacts d') = length (contacts load_limit_test_db)"
    "\<forall>i<length (contacts load_limit_test_db).
            (c_id (contacts load_limit_test_db ! i) = 1 \<longrightarrow>
               contacts d' ! i = (contacts load_limit_test_db ! i)\<lparr>status := Closed\<rparr>)"
    "operators d' = operators load_limit_test_db" "leads d' = leads load_limit_test_db"
    "sources d' = sources load_limit_test_db" "weights d' = weights load_limit_test_db"
    "find_contact d' 1 = Some (?c\<lparr>status := Closed\<rparr>)"
    by auto
  from dd(2,3) cs have "contacts d' = [?c\<lparr>status := Closed\<rparr>]"
    by (cases "contacts d'") auto
  with dd(4-7) have de: "d' = load_limit_test_db\<lparr>contacts := [?c\<lparr>status := Closed\<rparr>]\<rparr>"
    by simp
  have reopen: "update_contact_status d' 1 Active = (load_limit_test_db, Inr ?c)"
    unfolding de by (simp add: update_contact_status_def find_contact_def load_limit_test_db_def)
  from f dd(1) de reopen show ?thesis by simp
qed

end
